theory Spec2Isabelle
  imports Main "HOL-Library.Word" "HOL-Library.Monad_Syntax"
begin

unbundle bit_operations_syntax

section \<open>The display library as the video code sees it\<close>

text \<open>
  \<open>video.cpp\<close> is compiled in its SDL2 configuration (\<open>SDL2\<close> defined, \<open>SCALE\<close>,
  \<open>WIZ\<close>, \<open>GP2X\<close>, \<open>FULLSCREEN_ONLY\<close> and the handheld targets undefined). The SDL
  library is a collaborator outside the repository; the definitions of this section
  state the part of its documented behaviour that the video code relies on.

  An \<open>SDL_Color\<close> is four bytes. A palette array is a list of colours; a pointer to
  a palette array is either the address of the \<open>logicalPalette\<close> member of the video
  object or the address of an array owned by the caller.
\<close>

record SDL_Color =
  r :: "8 word"
  g :: "8 word"
  b :: "8 word"
  a :: "8 word"

datatype palette_ptr = LogicalPalette | Caller nat

datatype pixeldata = Indexed8 "8 word list" | Packed32 "32 word list"

text \<open>
  A surface: its size, the palette of its pixel format (\<open>None\<close> is the null pointer
  that a format without palette has) and its pixel rows, taken to be contiguous.
\<close>

record SDL_Surface =
  w :: int
  h :: int
  palette :: "SDL_Color list option"
  pixels :: pixeldata

datatype frame = Cleared | Texture "32 word list"

text \<open>The calls to collaborators that a state records, in program order.\<close>

datatype call =
    FillRect nat "32 word"
  | ApplyEffects bool int bool
  | SetPaletteColors nat int int
  | RenderPresent frame

text \<open>
  A palette effect chain is an object with a virtual \<open>apply\<close> method; its class is
  declared in \<open>paletteeffects.h\<close>, which is not part of the sources at hand. The chain
  is therefore a parameter: the function that \<open>apply (shownPalette, direct, mspf,
  isStopped)\<close> computes on the array it is handed.
\<close>

type_synonym PaletteEffect = "SDL_Color list \<Rightarrow> bool \<Rightarrow> int \<Rightarrow> bool \<Rightarrow> SDL_Color list"

text \<open>
  What the build and the library supply: the two screen-size constants of the absent
  headers and \<open>SDL_MapRGB\<close>, which maps a colour to a pixel value of a format.
\<close>

record platform =
  DEFAULT_SCREEN_WIDTH :: nat
  DEFAULT_SCREEN_HEIGHT :: nat
  SDL_MapRGB :: "SDL_Color list option \<Rightarrow> 8 word \<Rightarrow> 8 word \<Rightarrow> 8 word \<Rightarrow> 32 word"

section \<open>The video object and the memory around it\<close>

record Video =
  screen :: "nat option"
  canvas :: "nat option"
  helper_surface :: "nat option"
  logicalPalette :: "SDL_Color list"
  currentPalette :: palette_ptr
  fakePalette :: bool
  fullscreen :: bool
  screenW :: int
  screenH :: int
  canvasW :: int
  canvasH :: int
  maxW :: int
  maxH :: int

text \<open>
  The state a video operation runs in: the video object, the surfaces the library has
  allocated (a surface pointer is an index of this list), the memory of the callers
  (\<open>mem s n\<close> is the sequence of colours that can be read from address \<open>n\<close> on, empty
  for a pointer to nothing), what an uninitialised local palette array holds, and the
  collaborator calls made so far. An operation returns \<open>None\<close> where the C++
  dereferences a null pointer or reads or writes outside an array.
\<close>

record world =
  video :: Video
  surfaces :: "SDL_Surface list"
  mem :: "nat \<Rightarrow> SDL_Color list"
  stack_junk :: "SDL_Color list"
  calls :: "call list"

definition deref_palette :: "world \<Rightarrow> palette_ptr \<Rightarrow> SDL_Color list" where
  "deref_palette s p =
     (case p of LogicalPalette \<Rightarrow> logicalPalette (video s) | Caller n \<Rightarrow> mem s n)"

definition deref_surface :: "world \<Rightarrow> nat option \<Rightarrow> SDL_Surface option" where
  "deref_surface s p =
     (case p of None \<Rightarrow> None
      | Some n \<Rightarrow> if n < length (surfaces s) then Some (surfaces s ! n) else None)"

definition log_call :: "call \<Rightarrow> world \<Rightarrow> world" where
  "log_call c s = s\<lparr>calls := calls s @ [c]\<rparr>"

subsection \<open>Library calls\<close>

text \<open>
  \<open>SDL_SetPaletteColors (palette, colors, firstcolor, ncolors)\<close> copies \<open>ncolors\<close>
  entries from the start of \<open>colors\<close> to the entries of the palette from \<open>firstcolor\<close>
  on, after clamping \<open>ncolors\<close> to what the palette has left. A negative count or a
  source array with fewer entries than are copied is a stray memory access.
\<close>

definition SDL_SetPaletteColors ::
  "SDL_Color list \<Rightarrow> SDL_Color list \<Rightarrow> int \<Rightarrow> int \<Rightarrow> SDL_Color list option" where
  "SDL_SetPaletteColors pal colors firstcolor ncolors =
     (let n = (if ncolors > int (length pal) - firstcolor
               then int (length pal) - firstcolor else ncolors)
      in if firstcolor < 0 \<or> n < 0 \<or> int (length colors) < n then None
         else Some (take (nat firstcolor) pal @ take (nat n) colors
                    @ drop (nat firstcolor + nat n) pal))"

text \<open>
  The call as the video code writes it, \<open>SDL_SetPaletteColors (surface->format->palette,
  ...)\<close>: the surface pointer is dereferenced; on a format without palette the library
  returns an error code and changes nothing.
\<close>

definition set_surface_palette ::
  "nat option \<Rightarrow> SDL_Color list \<Rightarrow> int \<Rightarrow> int \<Rightarrow> world \<Rightarrow> world option" where
  "set_surface_palette p colors firstcolor ncolors s =
     (case p of None \<Rightarrow> None
      | Some n \<Rightarrow>
          (case deref_surface s p of None \<Rightarrow> None
           | Some surf \<Rightarrow>
               (case palette surf of
                  None \<Rightarrow> Some (log_call (SetPaletteColors n firstcolor ncolors) s)
                | Some pal \<Rightarrow>
                    (case SDL_SetPaletteColors pal colors firstcolor ncolors of
                       None \<Rightarrow> None
                     | Some pal' \<Rightarrow>
                         Some (log_call (SetPaletteColors n firstcolor ncolors)
                                 (s\<lparr>surfaces := (surfaces s)
                                      [n := surf\<lparr>palette := Some pal'\<rparr>]\<rparr>))))))"

text \<open>
  \<open>SDL_CreateRGBSurface\<close>: a new surface with zeroed pixels; an 8-bit surface gets a
  palette of 256 white entries, a 32-bit surface has none. The result is the pointer
  to the new surface.
\<close>

definition white :: SDL_Color where
  "white = \<lparr>r = 255, g = 255, b = 255, a = 255\<rparr>"

definition SDL_CreateRGBSurface :: "nat \<Rightarrow> nat \<Rightarrow> nat \<Rightarrow> world \<Rightarrow> nat \<times> world" where
  "SDL_CreateRGBSurface width height depth s =
     (let surf = (if depth = 8
                  then \<lparr>w = int width, h = int height,
                        palette = Some (replicate 256 white),
                        pixels = Indexed8 (replicate (width * height) 0)\<rparr>
                  else \<lparr>w = int width, h = int height, palette = None,
                        pixels = Packed32 (replicate (width * height) 0)\<rparr>)
      in (length (surfaces s), s\<lparr>surfaces := surfaces s @ [surf]\<rparr>))"

text \<open>
  \<open>SDL_FillRect (surface, NULL, color)\<close> sets every pixel of the surface; on an
  8-bit surface the low byte of the colour is stored.
\<close>

definition SDL_FillRect :: "nat option \<Rightarrow> 32 word \<Rightarrow> world \<Rightarrow> world option" where
  "SDL_FillRect p color s =
     (case p of None \<Rightarrow> None
      | Some n \<Rightarrow>
          (case deref_surface s p of None \<Rightarrow> None
           | Some surf \<Rightarrow>
               Some (log_call (FillRect n color)
                 (s\<lparr>surfaces := (surfaces s)
                      [n := surf\<lparr>pixels :=
                         (case pixels surf of
                            Indexed8 ps \<Rightarrow> Indexed8 (replicate (length ps) (ucast color))
                          | Packed32 ps \<Rightarrow> Packed32 (replicate (length ps) color))\<rparr>]\<rparr>))))"

section \<open>The operations of \<open>video.cpp\<close>\<close>

text \<open>
  \<open>Video::Video\<close>. The object's storage before construction is whatever the state
  holds; the constructor writes \<open>screen\<close>, the three colour channels of every logical
  palette entry, and \<open>currentPalette\<close>.
\<close>

definition Video_Video :: "world \<Rightarrow> world" where
  "Video_Video s =
     s\<lparr>video := (video s)
        \<lparr>screen := None,
         logicalPalette :=
           fold (\<lambda>count lp. lp[count := (lp ! count)
                    \<lparr>r := of_nat count, g := of_nat count, b := of_nat count\<rparr>])
                [0..<256] (logicalPalette (video s)),
         currentPalette := LogicalPalette\<rparr>\<rparr>"

definition findMaxResolution :: "platform \<Rightarrow> world \<Rightarrow> world" where
  "findMaxResolution pf s =
     s\<lparr>video := (video s)
        \<lparr>maxW := int (DEFAULT_SCREEN_WIDTH pf), maxH := int (DEFAULT_SCREEN_HEIGHT pf)\<rparr>\<rparr>"

definition expose :: "world \<Rightarrow> world option" where
  "expose s = do {
     s1 \<leftarrow> set_surface_palette (screen (video s)) (logicalPalette (video s)) 0 256 s;
     set_surface_palette (screen (video s1))
       (deref_palette s1 (currentPalette (video s1))) 0 256 s1
   }"

text \<open>
  \<open>Video::reset\<close>, SDL2 branch: a window, a renderer, the 8-bit screen surface, the
  32-bit helper surface and a texture are created, the renderer is cleared and
  presented, the canvas is the screen, the palettes are exposed and the palette is
  assumed emulated. The result is the return value and the new state.
\<close>

definition reset :: "platform \<Rightarrow> int \<Rightarrow> int \<Rightarrow> world \<Rightarrow> (bool \<times> world) option" where
  "reset pf width height s =
     (let s1 = s\<lparr>video := (video s)\<lparr>screenW := width, screenH := height\<rparr>\<rparr>;
          (scr, s2) = SDL_CreateRGBSurface
                        (DEFAULT_SCREEN_WIDTH pf) (DEFAULT_SCREEN_HEIGHT pf) 8 s1;
          s3 = s2\<lparr>video := (video s2)\<lparr>screen := Some scr\<rparr>\<rparr>;
          (hlp, s4) = SDL_CreateRGBSurface
                        (DEFAULT_SCREEN_WIDTH pf) (DEFAULT_SCREEN_HEIGHT pf) 32 s3;
          s5 = s4\<lparr>video := (video s4)\<lparr>helper_surface := Some hlp\<rparr>\<rparr>;
          s6 = log_call (RenderPresent Cleared) s5;
          s7 = s6\<lparr>video := (video s6)
                 \<lparr>canvasW := screenW (video s6), canvasH := screenH (video s6),
                  canvas := screen (video s6)\<rparr>\<rparr>
      in do {
        s8 \<leftarrow> expose s7;
        Some (True, s8\<lparr>video := (video s8)\<lparr>fakePalette := True\<rparr>\<rparr>)
      })"

definition init :: "platform \<Rightarrow> int \<Rightarrow> int \<Rightarrow> bool \<Rightarrow> world \<Rightarrow> (bool \<times> world) option" where
  "init pf width height startFullscreen s = do {
     (ok, s1) \<leftarrow> reset pf width height
                   (s\<lparr>video := (video s)\<lparr>fullscreen := startFullscreen\<rparr>\<rparr>);
     if \<not> ok then Some (False, s1) else Some (True, findMaxResolution pf s1)
   }"

definition getPalette :: "world \<Rightarrow> palette_ptr" where
  "getPalette s = currentPalette (video s)"

text \<open>
  \<open>Video::changePalette\<close>: \<open>first\<close> is an unsigned char, \<open>amount\<close> an unsigned int
  that the library call receives as an int.
\<close>

definition changePalette :: "palette_ptr \<Rightarrow> 8 word \<Rightarrow> 32 word \<Rightarrow> world \<Rightarrow> world option" where
  "changePalette p first amount s =
     set_surface_palette (screen (video s)) (deref_palette s p) (uint first) (sint amount) s"

definition restoreSurfacePalette :: "nat option \<Rightarrow> world \<Rightarrow> world option" where
  "restoreSurfacePalette surface s =
     set_surface_palette surface (logicalPalette (video s)) 0 256 s"

definition clearScreen :: "32 word \<Rightarrow> world \<Rightarrow> world option" where
  "clearScreen index s = SDL_FillRect (canvas (video s)) index s"

text \<open>
  The pixel value that \<open>flip\<close> composes, \<open>((r << 24) | (g << 16) | (b << 8)) | (0xff
  << 0)\<close>, as the 32 bits stored into the helper surface.
\<close>

definition RGBColor :: "SDL_Color \<Rightarrow> 32 word" where
  "RGBColor c =
     ((push_bit 24 (ucast (r c)) OR push_bit 16 (ucast (g c))) OR push_bit 8 (ucast (b c)))
       OR push_bit 0 255"

text \<open>
  The loop of \<open>flip\<close> over the pixel positions: read the index at position \<open>i\<close> of the
  screen, look it up in the screen's palette, store the composed value at position
  \<open>i\<close> of the helper surface.
\<close>

fun remap ::
  "8 word list \<Rightarrow> SDL_Color list option \<Rightarrow> nat list \<Rightarrow> 32 word list \<Rightarrow> 32 word list option"
where
  "remap src pal [] dst = Some dst"
| "remap src pal (i # rest) dst =
     (case pal of None \<Rightarrow> None
      | Some colors \<Rightarrow>
          if i < length src \<and> unat (src ! i) < length colors \<and> i < length dst
          then remap src pal rest (dst[i := RGBColor (colors ! unat (src ! i))])
          else None)"

text \<open>
  The second half of \<open>flip\<close>, from \<open>int npixels = screen->w * screen->h\<close> on: the
  remapping loop, the palette call on the helper surface, the blit of the helper surface
  onto itself (no change), and the texture update, copy and presentation, which put the
  helper surface's pixels on the display.
\<close>

definition show_frame :: "world \<Rightarrow> world option" where
  "show_frame s = do {
     scr \<leftarrow> deref_surface s (screen (video s));
     let npixels = w scr * h scr;
     if npixels < - (2 ^ 31) \<or> 2 ^ 31 \<le> npixels then None
     else do {
       hlp \<leftarrow> deref_surface s (helper_surface (video s));
       m \<leftarrow> helper_surface (video s);
       src \<leftarrow> (case pixels scr of Indexed8 ps \<Rightarrow> Some ps | Packed32 ps \<Rightarrow> None);
       dst \<leftarrow> (case pixels hlp of Packed32 ps \<Rightarrow> Some ps | Indexed8 ps \<Rightarrow> None);
       dst' \<leftarrow> remap src (palette scr) [0..<nat npixels] dst;
       let s1 = s\<lparr>surfaces := (surfaces s)[m := hlp\<lparr>pixels := Packed32 dst'\<rparr>]\<rparr>;
       cnv \<leftarrow> deref_surface s1 (canvas (video s1));
       colors \<leftarrow> palette cnv;
       s2 \<leftarrow> set_surface_palette (helper_surface (video s1)) colors 0 256 s1;
       hlp2 \<leftarrow> deref_surface s2 (helper_surface (video s2));
       shown \<leftarrow> (case pixels hlp2 of Packed32 ps \<Rightarrow> Some ps | Indexed8 ps \<Rightarrow> None);
       Some (log_call (RenderPresent (Texture shown)) s2)
     }
   }"

text \<open>
  Modelled from the spec: \<open>PaletteEffect::apply\<close> with \<open>direct\<close> true, whose code is not
  at hand. The spec's direct mode applies the effects and pushes the result straight
  to the display's palette table; the array handed over by \<open>flip\<close> is its local
  \<open>shownPalette\<close>, which nothing has written.
\<close>

definition apply_direct :: "PaletteEffect \<Rightarrow> int \<Rightarrow> bool \<Rightarrow> world \<Rightarrow> world option" where
  "apply_direct pe mspf effectsStopped s =
     set_surface_palette (screen (video s))
       (pe (stack_junk s) True mspf effectsStopped) 0 256
       (log_call (ApplyEffects True mspf effectsStopped) s)"

text \<open>
  \<open>Video::flip\<close>. With an effect chain and an emulated palette: \<open>memcpy\<close> of 256 entries
  of the current palette into \<open>shownPalette\<close>, \<open>apply\<close> on \<open>shownPalette\<close>, and
  \<open>SDL_SetPaletteColors\<close> of \<open>shownPalette\<close> on the screen. Then the frame is shown.
\<close>

definition flip :: "int \<Rightarrow> PaletteEffect option \<Rightarrow> bool \<Rightarrow> world \<Rightarrow> world option" where
  "flip mspf paletteEffects effectsStopped s = do {
     s1 \<leftarrow> (case paletteEffects of
             None \<Rightarrow> Some s
           | Some pe \<Rightarrow>
               if fakePalette (video s)
               then (let cur = deref_palette s (currentPalette (video s))
                     in if length cur < 256 then None
                        else (let shownPalette = take 256 cur;
                                  shownPalette = pe shownPalette False mspf effectsStopped
                              in set_surface_palette (screen (video s)) shownPalette 0 256
                                   (log_call (ApplyEffects False mspf effectsStopped) s)))
               else apply_direct pe mspf effectsStopped s);
     show_frame s1
   }"

text \<open>
  \<open>Video::setPalette\<close>. \<open>flip (0)\<close> leaves the effect chain and the stopped flag to
  the defaults of the declaration in the absent \<open>video.h\<close>, taken to be \<open>NULL\<close> and
  \<open>false\<close>. The \<open>printf\<close> loop reads 255 entries of the screen's palette; what it
  prints is not part of the state.
\<close>

definition setPalette :: "platform \<Rightarrow> palette_ptr \<Rightarrow> world \<Rightarrow> world option" where
  "setPalette pf p s = do {
     scr \<leftarrow> deref_surface s (screen (video s));
     s1 \<leftarrow> clearScreen (SDL_MapRGB pf (palette scr) 0 0 0) s;
     s2 \<leftarrow> flip 0 None False s1;
     s3 \<leftarrow> set_surface_palette (screen (video s2)) (deref_palette s2 p) 0 256 s2;
     scr3 \<leftarrow> deref_surface s3 (screen (video s3));
     pal \<leftarrow> palette scr3;
     if length pal < 255 then None
     else Some (s3\<lparr>video := (video s3)\<lparr>currentPalette := p\<rparr>\<rparr>)
   }"

text \<open>
  \<open>Video::update\<close>: of an event, only whether it is a key press of Return with Alt held
  matters.
\<close>

record SDL_Event =
  is_KEYDOWN :: bool
  sym_is_RETURN :: bool
  mod_has_ALT :: bool

definition update :: "platform \<Rightarrow> SDL_Event \<Rightarrow> world \<Rightarrow> world option" where
  "update pf event s =
     (if is_KEYDOWN event \<and> sym_is_RETURN event \<and> mod_has_ALT event
      then do {
        let s1 = s\<lparr>video := (video s)\<lparr>fullscreen := \<not> fullscreen (video s)\<rparr>\<rparr>;
        (ok, s2) \<leftarrow> reset pf (screenW (video s1)) (screenH (video s1)) s1;
        Some (findMaxResolution pf s2)
      }
      else Some s)"

subsection \<open>Sequences of operations\<close>

datatype operation =
    Init int int bool
  | Reset int int
  | SetPalette palette_ptr
  | ChangePalette palette_ptr "8 word" "32 word"
  | RestoreSurfacePalette "nat option"
  | Expose
  | Update SDL_Event
  | Flip int "PaletteEffect option" bool
  | ClearScreen "32 word"
  | FindMaxResolution

fun step :: "platform \<Rightarrow> operation \<Rightarrow> world \<Rightarrow> world option" where
  "step pf (Init width height fs) s = map_option snd (init pf width height fs s)"
| "step pf (Reset width height) s = map_option snd (reset pf width height s)"
| "step pf (SetPalette p) s = setPalette pf p s"
| "step pf (ChangePalette p first amount) s = changePalette p first amount s"
| "step pf (RestoreSurfacePalette surface) s = restoreSurfacePalette surface s"
| "step pf Expose s = expose s"
| "step pf (Update event) s = update pf event s"
| "step pf (Flip mspf paletteEffects effectsStopped) s =
     flip mspf paletteEffects effectsStopped s"
| "step pf (ClearScreen index) s = clearScreen index s"
| "step pf FindMaxResolution s = Some (findMaxResolution pf s)"

fun run :: "platform \<Rightarrow> operation list \<Rightarrow> world \<Rightarrow> world option" where
  "run pf [] s = Some s"
| "run pf (x # xs) s = (case step pf x s of None \<Rightarrow> None | Some s' \<Rightarrow> run pf xs s')"

subsection \<open>States in which the display is set up\<close>

text \<open>
  What \<open>reset\<close> establishes and every operation keeps: screen and canvas are the same
  8-bit surface with a palette of 256 entries, the helper surface is another, 32-bit
  surface of the same size, and both the logical palette and the array that
  \<open>currentPalette\<close> points to have 256 readable entries.
\<close>

definition ready :: "world \<Rightarrow> bool" where
  "ready s =
     (case (screen (video s), helper_surface (video s)) of
        (Some n, Some m) \<Rightarrow>
          canvas (video s) = Some n \<and> n \<noteq> m \<and>
          n < length (surfaces s) \<and> m < length (surfaces s) \<and>
          (case (palette (surfaces s ! n), pixels (surfaces s ! n),
                 pixels (surfaces s ! m)) of
             (Some pal, Indexed8 src, Packed32 dst) \<Rightarrow>
               length pal = 256 \<and>
               0 \<le> w (surfaces s ! n) \<and> 0 \<le> h (surfaces s ! n) \<and>
               w (surfaces s ! n) * h (surfaces s ! n) < 2 ^ 31 \<and>
               length src = nat (w (surfaces s ! n) * h (surfaces s ! n)) \<and>
               length dst = length src \<and>
               palette (surfaces s ! m) = None
           | _ \<Rightarrow> False) \<and>
          256 \<le> length (logicalPalette (video s)) \<and>
          256 \<le> length (deref_palette s (currentPalette (video s)))
      | _ \<Rightarrow> False)"

text \<open>The palette table of the display and the indexed framebuffer, read off a state.\<close>

definition display_palette :: "world \<Rightarrow> SDL_Color list" where
  "display_palette s =
     (case deref_surface s (screen (video s)) of
        None \<Rightarrow> []
      | Some scr \<Rightarrow> (case palette scr of None \<Rightarrow> [] | Some pal \<Rightarrow> pal))"

definition framebuffer :: "world \<Rightarrow> 8 word list" where
  "framebuffer s =
     (case deref_surface s (screen (video s)) of
        None \<Rightarrow> []
      | Some scr \<Rightarrow> (case pixels scr of Indexed8 ps \<Rightarrow> ps | Packed32 ps \<Rightarrow> []))"

fun is_direct_apply :: "call \<Rightarrow> bool" where
  "is_direct_apply (ApplyEffects direct mspf stopped) = direct"
| "is_direct_apply c = False"

text \<open>
  The calls of a state that applied an effect chain in direct mode, and the relation
  between two states that differ at most in the contents of surfaces and in calls that
  are not of that kind.
\<close>

definition direct_calls :: "world \<Rightarrow> call list" where
  "direct_calls s = filter is_direct_apply (calls s)"

definition display_only :: "world \<Rightarrow> world \<Rightarrow> bool" where
  "display_only s s' \<longleftrightarrow>
     video s' = video s \<and> mem s' = mem s \<and> stack_junk s' = stack_junk s \<and>
     length (surfaces s') = length (surfaces s) \<and> direct_calls s' = direct_calls s"

subsection \<open>A small display, for examples\<close>

text \<open>
  A platform with a screen of two by two pixels, a state in which the display is set
  up and the current palette is an array of the caller, and an effect that shifts the
  red channel of every entry.
\<close>

definition example_platform :: platform where
  "example_platform =
     \<lparr>DEFAULT_SCREEN_WIDTH = 2, DEFAULT_SCREEN_HEIGHT = 2,
      SDL_MapRGB = (\<lambda>pal rv gv bv. 0)\<rparr>"

definition example_world :: world where
  "example_world =
     \<lparr>video =
        \<lparr>screen = Some 0, canvas = Some 0, helper_surface = Some 1,
         logicalPalette = replicate 256 white, currentPalette = Caller 0,
         fakePalette = True, fullscreen = False,
         screenW = 2, screenH = 2, canvasW = 2, canvasH = 2, maxW = 2, maxH = 2\<rparr>,
      surfaces =
        [\<lparr>w = 2, h = 2, palette = Some (replicate 256 white),
          pixels = Indexed8 [0, 1, 2, 3]\<rparr>,
         \<lparr>w = 2, h = 2, palette = None, pixels = Packed32 [0, 0, 0, 0]\<rparr>],
      mem = (\<lambda>n. if n = 0 then replicate 256 \<lparr>r = 1, g = 2, b = 3, a = 0\<rparr> else []),
      stack_junk = [],
      calls = []\<rparr>"

definition example_effect :: PaletteEffect where
  "example_effect shownPalette direct mspf isStopped =
     map (\<lambda>c. c\<lparr>r := r c + 16\<rparr>) shownPalette"

section \<open>The file reader\<close>

text \<open>
  \<open>file.h\<close> declares the class \<open>File\<close>; the bodies of its methods are in a source
  file that is not at hand. The definitions of this section are therefore written
  from the specification's description of the byte stream reader and its decoders.
\<close>

datatype error =
    TruncatedStream | DecodeOverrun | DecodeUnderrun | CorruptData | OutOfRange
  | ResourceNotFound

record ByteStream =
  buffer :: "8 word list"
  offset :: nat

text \<open>
  Modelled from the spec: the body of \<open>File::seek (int offset, bool reset)\<close>. The
  target is the offset itself when repositioning from the start, the cursor plus the
  offset otherwise; the seek fails with \<open>OutOfRange\<close> if the target is negative or
  beyond the stream end.
\<close>

definition seek :: "int \<Rightarrow> bool \<Rightarrow> ByteStream \<Rightarrow> error + ByteStream" where
  "seek off fromStart st =
     (let target = (if fromStart then off else int (offset st) + off)
      in if target < 0 \<or> int (length (buffer st)) < target then Inl OutOfRange
         else Inr (st\<lparr>offset := nat target\<rparr>))"

text \<open>Modelled from the spec: the body of \<open>File::tell\<close>, the spec's position query.\<close>

definition tell :: "ByteStream \<Rightarrow> int" where
  "tell st = int (offset st)"

text \<open>
  Modelled from the spec: the decoding loop of \<open>File::loadRLE (int length)\<close>, on the
  bytes from the cursor on and the output produced so far. It stops when exactly
  \<open>N\<close> bytes have been produced. Otherwise it reads a control byte: running out of
  control bytes is \<open>DecodeUnderrun\<close>; a run that would produce more than the declared
  length, or that needs more input than there is, is \<open>DecodeOverrun\<close>; with the high
  bit set the low 7 bits + 1 count a literal run copied from the stream, without it
  they count the copies of the single following byte. The result is the output and
  the input left.
\<close>

function rle_decode ::
  "int \<Rightarrow> 8 word list \<Rightarrow> 8 word list \<Rightarrow> error + (8 word list \<times> 8 word list)" where
  "rle_decode N inp out =
     (if int (length out) = N then Inr (out, inp)
      else (case inp of
              [] \<Rightarrow> Inl DecodeUnderrun
            | c # rest \<Rightarrow>
                (let n = unat (c AND 127) + 1
                 in if N < int (length out + n) then Inl DecodeOverrun
                    else if c AND 128 \<noteq> 0
                    then (if length rest < n then Inl DecodeOverrun
                          else rle_decode N (drop n rest) (out @ take n rest))
                    else (case rest of
                            [] \<Rightarrow> Inl DecodeOverrun
                          | v # rest' \<Rightarrow> rle_decode N rest' (out @ replicate n v)))))"
  by pat_completeness auto
termination
  by (relation "measure (\<lambda>(N, inp, out). length inp)") auto

definition loadRLE :: "int \<Rightarrow> ByteStream \<Rightarrow> error + (8 word list \<times> ByteStream)" where
  "loadRLE N st =
     (case rle_decode N (drop (offset st) (buffer st)) [] of
        Inl e \<Rightarrow> Inl e
      | Inr (out, rest) \<Rightarrow> Inr (out, st\<lparr>offset := length (buffer st) - length rest\<rparr>))"

text \<open>
  Modelled from the spec: the decoder of \<open>File::loadLZ\<close>, on the tokens of the
  compressed block. The spec leaves the packing of control bits, distances and lengths
  into bytes open, so the tokens are the input. A back-reference copies \<open>length\<close>
  bytes, one at a time and front to back, each from \<open>distance\<close> bytes behind the
  position being written; a distance that reaches before the start of the output (or
  is no distance at all) is \<open>CorruptData\<close>.
\<close>

datatype token = Literal "8 word" | BackReference nat nat

fun copy_back :: "nat \<Rightarrow> nat \<Rightarrow> 8 word list \<Rightarrow> error + 8 word list" where
  "copy_back distance 0 out = Inr out"
| "copy_back distance (Suc n) out =
     (if distance = 0 \<or> length out < distance then Inl CorruptData
      else copy_back distance n (out @ [out ! (length out - distance)]))"

fun lz_decode :: "token list \<Rightarrow> 8 word list \<Rightarrow> error + 8 word list" where
  "lz_decode [] out = Inr out"
| "lz_decode (Literal v # ts) out = lz_decode ts (out @ [v])"
| "lz_decode (BackReference distance n # ts) out =
     (case copy_back distance n out of
        Inl e \<Rightarrow> Inl e
      | Inr out' \<Rightarrow> lz_decode ts out')"

text \<open>
  The whole compressed input is consumed; output short of the declared length is
  \<open>DecodeUnderrun\<close>, output beyond it \<open>DecodeOverrun\<close>.
\<close>

definition loadLZ :: "token list \<Rightarrow> int \<Rightarrow> error + 8 word list" where
  "loadLZ tokens N =
     (case lz_decode tokens [] of
        Inl e \<Rightarrow> Inl e
      | Inr out \<Rightarrow>
          if int (length out) < N then Inl DecodeUnderrun
          else if N < int (length out) then Inl DecodeOverrun
          else Inr out)"

section \<open>Properties of the library calls and of the remapping loop\<close>

lemma SDL_SetPaletteColors_all:
  "length pal = 256 \<Longrightarrow> 256 \<le> length colors \<Longrightarrow>
   SDL_SetPaletteColors pal colors 0 256 = Some (take 256 colors)"
  by (simp add: SDL_SetPaletteColors_def)

lemma SDL_SetPaletteColors_length:
  "SDL_SetPaletteColors pal colors f n = Some pal' \<Longrightarrow> length pal' = length pal"
  by (auto simp: SDL_SetPaletteColors_def Let_def split: if_splits)

lemma SDL_SetPaletteColors_outside:
  "SDL_SetPaletteColors pal colors f n = Some pal' \<Longrightarrow> i < length pal \<Longrightarrow>
   int i < f \<or> f + n \<le> int i \<Longrightarrow> pal' ! i = pal ! i"
  by (auto simp: SDL_SetPaletteColors_def Let_def nth_append split: if_splits)

lemma SDL_SetPaletteColors_inside:
  "SDL_SetPaletteColors pal colors f n = Some pal' \<Longrightarrow> i < length pal \<Longrightarrow>
   f \<le> int i \<Longrightarrow> int i < f + n \<Longrightarrow> pal' ! i = colors ! (i - nat f)"
  by (auto simp: SDL_SetPaletteColors_def Let_def nth_append split: if_splits)

lemma fold_update_nth:
  "j < length dst \<Longrightarrow>
   fold (\<lambda>i d. d[i := f i]) xs dst ! j = (if j \<in> set xs then f j else dst ! j)"
  by (induction xs arbitrary: dst) (auto simp: nth_list_update)

lemma fold_update_length:
  "length (fold (\<lambda>i d. d[i := f i]) xs dst) = length dst"
  by (induction xs arbitrary: dst) auto

lemma remap_fold:
  "\<forall>i\<in>set xs. i < length src \<and> unat (src ! i) < length colors \<and> i < length dst \<Longrightarrow>
   remap src (Some colors) xs dst
     = Some (fold (\<lambda>i d. d[i := RGBColor (colors ! unat (src ! i))]) xs dst)"
  by (induction xs arbitrary: dst) auto

lemma remap_all:
  assumes "length colors = 256" "length dst = length src"
  shows "remap src (Some colors) [0..<length src] dst
     = Some (map (\<lambda>index. RGBColor (colors ! unat index)) src)"
proof -
  have u: "unat x < 256" for x :: "8 word"
    using unsigned_less [of x, where 'a = nat] by simp
  have "remap src (Some colors) [0..<length src] dst
     = Some (fold (\<lambda>i d. d[i := RGBColor (colors ! unat (src ! i))]) [0..<length src] dst)"
    by (rule remap_fold) (simp add: assms u)
  moreover have "fold (\<lambda>i d. d[i := RGBColor (colors ! unat (src ! i))]) [0..<length src] dst
     = map (\<lambda>index. RGBColor (colors ! unat index)) src"
    by (rule nth_equalityI) (simp_all add: fold_update_length fold_update_nth assms)
  ultimately show ?thesis by simp
qed

lemma mask8: "(255 :: 'a :: len word) = mask 8"
  by (simp add: mask_eq_exp_minus_1)

lemma RGBColor_r: "ucast (drop_bit 24 (RGBColor c)) = r c"
  unfolding RGBColor_def mask8
  by (rule bit_word_eqI) (auto simp: bit_simps dest: bit_imp_le_length)

lemma RGBColor_g: "ucast (drop_bit 16 (RGBColor c)) = g c"
  unfolding RGBColor_def mask8
  by (rule bit_word_eqI) (auto simp: bit_simps dest: bit_imp_le_length)

lemma RGBColor_b: "ucast (drop_bit 8 (RGBColor c)) = b c"
  unfolding RGBColor_def mask8
  by (rule bit_word_eqI) (auto simp: bit_simps dest: bit_imp_le_length)

lemma RGBColor_alpha: "ucast (RGBColor c) = (255 :: 8 word)"
  unfolding RGBColor_def mask8
  by (rule bit_word_eqI) (auto simp: bit_simps dest: bit_imp_le_length)

section \<open>States in which the display is set up: rules\<close>

lemma readyE:
  assumes "ready s"
  obtains n m pal src dst where
    "screen (video s) = Some n" "canvas (video s) = Some n"
    "helper_surface (video s) = Some m" "n \<noteq> m"
    "n < length (surfaces s)" "m < length (surfaces s)"
    "palette (surfaces s ! n) = Some pal" "pixels (surfaces s ! n) = Indexed8 src"
    "pixels (surfaces s ! m) = Packed32 dst" "palette (surfaces s ! m) = None"
    "length pal = 256"
    "0 \<le> w (surfaces s ! n)" "0 \<le> h (surfaces s ! n)"
    "w (surfaces s ! n) * h (surfaces s ! n) < 2 ^ 31"
    "length src = nat (w (surfaces s ! n) * h (surfaces s ! n))"
    "length dst = length src"
    "256 \<le> length (logicalPalette (video s))"
    "256 \<le> length (deref_palette s (currentPalette (video s)))"
  using assms unfolding ready_def
  by (auto split: option.splits pixeldata.splits)

lemma readyI:
  assumes
    "screen (video s) = Some n" "canvas (video s) = Some n"
    "helper_surface (video s) = Some m" "n \<noteq> m"
    "n < length (surfaces s)" "m < length (surfaces s)"
    "palette (surfaces s ! n) = Some pal" "pixels (surfaces s ! n) = Indexed8 src"
    "pixels (surfaces s ! m) = Packed32 dst" "palette (surfaces s ! m) = None"
    "length pal = 256"
    "0 \<le> w (surfaces s ! n)" "0 \<le> h (surfaces s ! n)"
    "w (surfaces s ! n) * h (surfaces s ! n) < 2 ^ 31"
    "length src = nat (w (surfaces s ! n) * h (surfaces s ! n))"
    "length dst = length src"
    "256 \<le> length (logicalPalette (video s))"
    "256 \<le> length (deref_palette s (currentPalette (video s)))"
  shows "ready s"
  using assms unfolding ready_def by simp

lemma show_frame_ready:
  assumes scr: "screen (video s) = Some n" and cnv: "canvas (video s) = Some n"
    and hlp: "helper_surface (video s) = Some m" and nm: "n \<noteq> m"
    and ln: "n < length (surfaces s)" and lm: "m < length (surfaces s)"
    and pal: "palette (surfaces s ! n) = Some pal"
    and src: "pixels (surfaces s ! n) = Indexed8 src"
    and dst: "pixels (surfaces s ! m) = Packed32 dst"
    and nopal: "palette (surfaces s ! m) = None"
    and lpal: "length pal = 256"
    and w0: "0 \<le> w (surfaces s ! n)" and h0: "0 \<le> h (surfaces s ! n)"
    and wh: "w (surfaces s ! n) * h (surfaces s ! n) < 2 ^ 31"
    and lsrc: "length src = nat (w (surfaces s ! n) * h (surfaces s ! n))"
    and ldst: "length dst = length src"
  shows "show_frame s =
     Some (s\<lparr>surfaces := (surfaces s)
               [m := (surfaces s ! m)
                  \<lparr>pixels := Packed32 (map (\<lambda>index. RGBColor (pal ! unat index)) src)\<rparr>],
             calls := calls s @ [SetPaletteColors m 0 256,
               RenderPresent (Texture (map (\<lambda>index. RGBColor (pal ! unat index)) src))]\<rparr>)"
proof -
  let ?frame = "map (\<lambda>index. RGBColor (pal ! unat index)) src"
  let ?s1 = "s\<lparr>surfaces := (surfaces s)[m := (surfaces s ! m)\<lparr>pixels := Packed32 ?frame\<rparr>]\<rparr>"
  have np: "[0..<nat (w (surfaces s ! n) * h (surfaces s ! n))] = [0..<length src]"
    using lsrc by simp
  have "0 \<le> w (surfaces s ! n) * h (surfaces s ! n)"
    using w0 h0 by (rule mult_nonneg_nonneg)
  then have lo: "\<not> w (surfaces s ! n) * h (surfaces s ! n) < - (2 ^ 31)"
    by simp
  have hi: "\<not> 2 ^ 31 \<le> w (surfaces s ! n) * h (surfaces s ! n)"
    using wh by simp
  have d1: "deref_surface s (Some n) = Some (surfaces s ! n)"
    by (simp add: deref_surface_def ln)
  have d2: "deref_surface s (Some m) = Some (surfaces s ! m)"
    by (simp add: deref_surface_def lm)
  have rm: "remap src (Some pal) [0..<length src] dst = Some ?frame"
    by (rule remap_all [OF lpal ldst])
  have d3: "deref_surface ?s1 (Some n) = Some (surfaces s ! n)"
    using nm by (simp add: deref_surface_def ln)
  have sp: "set_surface_palette (Some m) pal 0 256 ?s1
      = Some (log_call (SetPaletteColors m 0 256) ?s1)"
    by (simp add: set_surface_palette_def deref_surface_def lm nopal)
  have d4: "deref_surface (log_call (SetPaletteColors m 0 256) ?s1) (Some m)
      = Some ((surfaces s ! m)\<lparr>pixels := Packed32 ?frame\<rparr>)"
    by (simp add: deref_surface_def log_call_def lm)
  have v: "video (log_call (SetPaletteColors m 0 256) ?s1) = video s"
    by (simp add: log_call_def)
  show ?thesis
    unfolding show_frame_def
    using lo hi
    by (simp add: scr cnv hlp d1 Let_def d2 src dst np rm d3 pal sp v d4)
      (simp add: log_call_def)
qed

lemma set_screen_palette:
  assumes ln: "n < length (surfaces s)"
    and pal: "palette (surfaces s ! n) = Some pal"
    and lpal: "length pal = 256" and lc: "256 \<le> length colors"
  shows "set_surface_palette (Some n) colors 0 256 s =
     Some (s\<lparr>surfaces := (surfaces s)[n := (surfaces s ! n)\<lparr>palette := Some (take 256 colors)\<rparr>],
             calls := calls s @ [SetPaletteColors n 0 256]\<rparr>)"
  by (simp add: set_surface_palette_def deref_surface_def ln pal
      SDL_SetPaletteColors_all [OF lpal lc] log_call_def)

lemma flip_emulated:
  assumes scr: "screen (video s) = Some n" and cnv: "canvas (video s) = Some n"
    and hlp: "helper_surface (video s) = Some m" and nm: "n \<noteq> m"
    and ln: "n < length (surfaces s)" and lm: "m < length (surfaces s)"
    and pal: "palette (surfaces s ! n) = Some pal"
    and src: "pixels (surfaces s ! n) = Indexed8 src"
    and dst: "pixels (surfaces s ! m) = Packed32 dst"
    and nopal: "palette (surfaces s ! m) = None"
    and lpal: "length pal = 256"
    and w0: "0 \<le> w (surfaces s ! n)" and h0: "0 \<le> h (surfaces s ! n)"
    and wh: "w (surfaces s ! n) * h (surfaces s ! n) < 2 ^ 31"
    and lsrc: "length src = nat (w (surfaces s ! n) * h (surfaces s ! n))"
    and ldst: "length dst = length src"
    and lcur: "256 \<le> length (deref_palette s (currentPalette (video s)))"
    and fake: "fakePalette (video s)"
    and shown: "shown = pe (take 256 (deref_palette s (currentPalette (video s))))
                  False mspf stopped"
    and lshown: "length shown = 256"
  shows "flip mspf (Some pe) stopped s =
     Some (s\<lparr>surfaces := (surfaces s)
               [n := (surfaces s ! n)\<lparr>palette := Some shown\<rparr>,
                m := (surfaces s ! m)
                  \<lparr>pixels := Packed32 (map (\<lambda>index. RGBColor (shown ! unat index)) src)\<rparr>],
             calls := calls s @ [ApplyEffects False mspf stopped,
               SetPaletteColors n 0 256, SetPaletteColors m 0 256,
               RenderPresent (Texture (map (\<lambda>index. RGBColor (shown ! unat index)) src))]\<rparr>)"
proof -
  let ?s0 = "log_call (ApplyEffects False mspf stopped) s"
  let ?s1 = "?s0\<lparr>surfaces := (surfaces ?s0)[n := (surfaces ?s0 ! n)\<lparr>palette := Some (take 256 shown)\<rparr>],
             calls := calls ?s0 @ [SetPaletteColors n 0 256]\<rparr>"
  have push: "set_surface_palette (Some n) shown 0 256 ?s0 = Some ?s1"
    by (rule set_screen_palette [where pal = pal])
       (simp_all add: log_call_def ln pal lpal lshown)
  have sf: "show_frame ?s1 =
     Some (?s1\<lparr>surfaces := (surfaces ?s1)
               [m := (surfaces ?s1 ! m)
                  \<lparr>pixels := Packed32 (map (\<lambda>index. RGBColor (shown ! unat index)) src)\<rparr>],
             calls := calls ?s1 @ [SetPaletteColors m 0 256,
               RenderPresent (Texture (map (\<lambda>index. RGBColor (shown ! unat index)) src))]\<rparr>)"
    by (rule show_frame_ready [where n = n and dst = dst])
       (use nm wh in \<open>simp_all add: log_call_def scr cnv hlp ln lm src dst nopal lshown w0 h0 lsrc ldst\<close>)
  have nl: "\<not> length (deref_palette s (currentPalette (video s))) < 256"
    using lcur by simp
  show ?thesis
    unfolding flip_def
    using nm
    by (simp add: fake nl Let_def scr shown [symmetric] push sf)
       (simp add: log_call_def lshown list_update_swap)
qed

lemma ready_example: "ready example_world"
  by (simp add: ready_def example_world_def deref_palette_def)

lemma display_palette_ready:
  "screen (video s) = Some n \<Longrightarrow> n < length (surfaces s) \<Longrightarrow>
   palette (surfaces s ! n) = Some pal \<Longrightarrow> display_palette s = pal"
  by (simp add: display_palette_def deref_surface_def)

lemma framebuffer_ready:
  "screen (video s) = Some n \<Longrightarrow> n < length (surfaces s) \<Longrightarrow>
   pixels (surfaces s ! n) = Indexed8 src \<Longrightarrow> framebuffer s = src"
  by (simp add: framebuffer_def deref_surface_def)

lemma deref_palette_same:
  "video s' = video s \<Longrightarrow> mem s' = mem s \<Longrightarrow> deref_palette s' p = deref_palette s p"
  by (cases p) (simp_all add: deref_palette_def)

lemma flip_no_effects: "flip mspf None stopped s = show_frame s"
  by (simp add: flip_def)

section \<open>Library calls change the display only\<close>

lemma display_only_refl: "display_only s s"
  by (simp add: display_only_def)

lemma display_only_trans [trans]:
  "display_only s s1 \<Longrightarrow> display_only s1 s2 \<Longrightarrow> display_only s s2"
  by (simp add: display_only_def)

lemma display_only_log:
  "\<not> is_direct_apply c \<Longrightarrow> display_only s (log_call c s)"
  by (simp add: display_only_def log_call_def direct_calls_def)

lemma set_surface_palette_frame:
  "set_surface_palette k colors f n s = Some s' \<Longrightarrow> display_only s s'"
  by (auto simp: set_surface_palette_def log_call_def direct_calls_def display_only_def
      split: option.splits)

lemma SDL_FillRect_frame:
  "SDL_FillRect k color s = Some s' \<Longrightarrow> display_only s s'"
  by (auto simp: SDL_FillRect_def log_call_def direct_calls_def display_only_def
      split: option.splits)

lemma show_frame_frame:
  assumes "show_frame s = Some s'"
  shows "display_only s s'"
proof -
  from assms obtain hlp m dst' colors s2 shown where
    s2: "set_surface_palette (helper_surface (video s)) colors 0 256
           (s\<lparr>surfaces := (surfaces s)[m := hlp\<lparr>pixels := Packed32 dst'\<rparr>]\<rparr>) = Some s2"
    and s': "s' = log_call (RenderPresent (Texture shown)) s2"
    by (auto simp: show_frame_def Let_def bind_eq_Some_conv split: if_splits)
  have "display_only s (s\<lparr>surfaces := (surfaces s)[m := hlp\<lparr>pixels := Packed32 dst'\<rparr>]\<rparr>)"
    by (simp add: display_only_def direct_calls_def)
  also have "display_only \<dots> s2"
    using s2 by (rule set_surface_palette_frame)
  also have "display_only s2 s'"
    unfolding s' by (rule display_only_log) simp
  finally show ?thesis .
qed

section \<open>Presenting a frame\<close>

lemma flip_effects_ready:
  assumes "ready s" and "fakePalette (video s)"
    and "length (pe (take 256 (deref_palette s (getPalette s))) False mspf stopped) = 256"
  shows "\<exists>s' n m shown.
      flip mspf (Some pe) stopped s = Some s'
      \<and> screen (video s) = Some n \<and> helper_surface (video s) = Some m
      \<and> calls s' = calls s @ [ApplyEffects False mspf stopped,
            SetPaletteColors n 0 256, SetPaletteColors m 0 256, RenderPresent shown]
      \<and> display_palette s' = pe (take 256 (deref_palette s (getPalette s))) False mspf stopped
      \<and> getPalette s' = getPalette s
      \<and> deref_palette s' (getPalette s') = deref_palette s (getPalette s)
      \<and> logicalPalette (video s') = logicalPalette (video s)
      \<and> mem s' = mem s"
proof -
  let ?shown = "pe (take 256 (deref_palette s (currentPalette (video s)))) False mspf stopped"
  from assms(1) obtain n m pal src dst where f:
    "screen (video s) = Some n" "canvas (video s) = Some n"
    "helper_surface (video s) = Some m" "n \<noteq> m"
    "n < length (surfaces s)" "m < length (surfaces s)"
    "palette (surfaces s ! n) = Some pal" "pixels (surfaces s ! n) = Indexed8 src"
    "pixels (surfaces s ! m) = Packed32 dst" "palette (surfaces s ! m) = None"
    "length pal = 256"
    "0 \<le> w (surfaces s ! n)" "0 \<le> h (surfaces s ! n)"
    "w (surfaces s ! n) * h (surfaces s ! n) < 2 ^ 31"
    "length src = nat (w (surfaces s ! n) * h (surfaces s ! n))"
    "length dst = length src"
    "256 \<le> length (logicalPalette (video s))"
    "256 \<le> length (deref_palette s (currentPalette (video s)))"
    by (rule readyE)
  have l: "length ?shown = 256"
    using assms(3) by (simp add: getPalette_def)
  let ?frame = "map (\<lambda>index. RGBColor (?shown ! unat index)) src"
  define s' where "s' =
     s\<lparr>surfaces := (surfaces s)
          [n := (surfaces s ! n)\<lparr>palette := Some ?shown\<rparr>,
           m := (surfaces s ! m)\<lparr>pixels := Packed32 ?frame\<rparr>],
        calls := calls s @ [ApplyEffects False mspf stopped,
          SetPaletteColors n 0 256, SetPaletteColors m 0 256,
          RenderPresent (Texture ?frame)]\<rparr>"
  have e: "flip mspf (Some pe) stopped s = Some s'"
    unfolding s'_def
    by (rule flip_emulated [where pe = pe and mspf = mspf and stopped = stopped
      and shown = "?shown", OF f(1-16) f(18) assms(2) refl l])
  have c: "calls s' = calls s @ [ApplyEffects False mspf stopped,
            SetPaletteColors n 0 256, SetPaletteColors m 0 256, RenderPresent (Texture ?frame)]"
    by (simp add: s'_def)
  have v: "video s' = video s" "mem s' = mem s"
    by (simp_all add: s'_def)
  have "palette (surfaces s' ! n) = Some ?shown" "n < length (surfaces s')"
    using f(4) by (simp_all add: s'_def f(5))
  then have d: "display_palette s' = ?shown"
    using display_palette_ready [of s' n ?shown] by (simp add: v f(1))
  have g: "getPalette s' = getPalette s"
    "deref_palette s' (getPalette s') = deref_palette s (getPalette s)"
    by (simp_all add: getPalette_def deref_palette_same [OF v] v)
  show ?thesis
    apply (rule exI [of _ s'], rule exI [of _ n], rule exI [of _ m])
    apply (rule exI [of _ "Texture ?frame"])
    using e c d g v f(1,3) by (simp add: getPalette_def)
qed

text \<open>
  Claim C1. In a state where the display is set up and the palette is emulated, a
  \<open>flip\<close> with an effect chain returns; it has called the chain (not in direct mode)
  and then pushed 256 entries to the screen's palette, which now holds what the chain
  made of a copy of the first 256 entries of the current palette; and the current
  palette pointer, the entries it points to, the logical palette and the callers'
  memory are as they were.
\<close>

theorem flip_effects_on_scratch_copy:
  assumes "ready s" and "fakePalette (video s)"
    and "length (pe (take 256 (deref_palette s (getPalette s))) False mspf stopped) = 256"
  shows "\<exists>s' n m shown.
      flip mspf (Some pe) stopped s = Some s'
      \<and> screen (video s) = Some n \<and> helper_surface (video s) = Some m
      \<and> calls s' = calls s @ [ApplyEffects False mspf stopped,
            SetPaletteColors n 0 256, SetPaletteColors m 0 256, RenderPresent shown]
      \<and> display_palette s' = pe (take 256 (deref_palette s (getPalette s))) False mspf stopped
      \<and> getPalette s' = getPalette s
      \<and> deref_palette s' (getPalette s') = deref_palette s (getPalette s)
      \<and> logicalPalette (video s') = logicalPalette (video s)
      \<and> mem s' = mem s"
  using assms by (rule flip_effects_ready)

theorem flip_effects_on_scratch_copy_witness:
  "ready example_world \<and> fakePalette (video example_world)
   \<and> length (example_effect (take 256 (deref_palette example_world (getPalette example_world)))
         False 16 False) = 256
   \<and> (\<exists>s'. flip 16 (Some example_effect) False example_world = Some s'
         \<and> display_palette s' = replicate 256 \<lparr>r = 17, g = 2, b = 3, a = 0\<rparr>
         \<and> deref_palette s' (getPalette s') = replicate 256 \<lparr>r = 1, g = 2, b = 3, a = 0\<rparr>)"
proof -
  have cur: "deref_palette example_world (getPalette example_world)
      = replicate 256 \<lparr>r = 1, g = 2, b = 3, a = 0\<rparr>"
    by (simp add: deref_palette_def getPalette_def example_world_def)
  have eff: "example_effect (take 256 (deref_palette example_world (getPalette example_world)))
         False 16 False = replicate 256 \<lparr>r = 17, g = 2, b = 3, a = 0\<rparr>"
    by (simp add: cur example_effect_def)
  have h2: "fakePalette (video example_world)"
    by (simp add: example_world_def)
  have h3: "length (example_effect (take 256 (deref_palette example_world (getPalette example_world)))
         False 16 False) = 256"
    by (simp add: eff)
  from flip_effects_on_scratch_copy [where pe = example_effect and mspf = 16
      and stopped = False and s = example_world, OF ready_example h2 h3]
  obtain s' where "flip 16 (Some example_effect) False example_world = Some s'"
    "display_palette s' = example_effect (take 256 (deref_palette example_world (getPalette example_world))) False 16 False"
    "deref_palette s' (getPalette s') = deref_palette example_world (getPalette example_world)"
    by blast
  then have "\<exists>s'. flip 16 (Some example_effect) False example_world = Some s'
         \<and> display_palette s' = replicate 256 \<lparr>r = 17, g = 2, b = 3, a = 0\<rparr>
         \<and> deref_palette s' (getPalette s') = replicate 256 \<lparr>r = 1, g = 2, b = 3, a = 0\<rparr>"
    by (simp add: cur example_effect_def)
  with ready_example h2 h3 show ?thesis
    by blast
qed

text \<open>
  Claim C2. In a state where the display is set up and the palette is emulated, a
  \<open>flip\<close>, with or without effect chain, returns; the last thing it does is to present
  a frame that has one true-colour pixel for each position of the indexed framebuffer,
  and the pixel at position \<open>i\<close> is the colour that the screen's palette, as the
  \<open>flip\<close> leaves it (the scratch palette if there is an effect chain), has at the
  index stored at position \<open>i\<close>: its red, green and blue are the three upper bytes.
\<close>

theorem flip_remaps_every_pixel:
  assumes "ready s" and "fakePalette (video s)"
    and "case paletteEffects of None \<Rightarrow> True
         | Some pe \<Rightarrow>
             length (pe (take 256 (deref_palette s (getPalette s))) False mspf stopped) = 256"
  shows "\<exists>s' frame.
      flip mspf paletteEffects stopped s = Some s'
      \<and> last (calls s') = RenderPresent (Texture frame)
      \<and> display_palette s' =
          (case paletteEffects of None \<Rightarrow> display_palette s
           | Some pe \<Rightarrow> pe (take 256 (deref_palette s (getPalette s))) False mspf stopped)
      \<and> framebuffer s' = framebuffer s
      \<and> length frame = length (framebuffer s)
      \<and> (\<forall>i<length (framebuffer s).
            frame ! i = RGBColor (display_palette s' ! unat (framebuffer s ! i))
            \<and> ucast (drop_bit 24 (frame ! i)) = r (display_palette s' ! unat (framebuffer s ! i))
            \<and> ucast (drop_bit 16 (frame ! i)) = g (display_palette s' ! unat (framebuffer s ! i))
            \<and> ucast (drop_bit 8 (frame ! i)) = b (display_palette s' ! unat (framebuffer s ! i)))"
proof -
  from assms(1) obtain n m pal src dst where f:
    "screen (video s) = Some n" "canvas (video s) = Some n"
    "helper_surface (video s) = Some m" "n \<noteq> m"
    "n < length (surfaces s)" "m < length (surfaces s)"
    "palette (surfaces s ! n) = Some pal" "pixels (surfaces s ! n) = Indexed8 src"
    "pixels (surfaces s ! m) = Packed32 dst" "palette (surfaces s ! m) = None"
    "length pal = 256"
    "0 \<le> w (surfaces s ! n)" "0 \<le> h (surfaces s ! n)"
    "w (surfaces s ! n) * h (surfaces s ! n) < 2 ^ 31"
    "length src = nat (w (surfaces s ! n) * h (surfaces s ! n))"
    "length dst = length src"
    "256 \<le> length (logicalPalette (video s))"
    "256 \<le> length (deref_palette s (currentPalette (video s)))"
    by (rule readyE)
  note f' = f(1-3) f(5-18)
  have fb: "framebuffer s = src"
    using f by (simp add: framebuffer_ready)
  have dp: "display_palette s = pal"
    using f by (simp add: display_palette_ready)
  define shown where "shown =
     (case paletteEffects of None \<Rightarrow> pal
      | Some pe \<Rightarrow> pe (take 256 (deref_palette s (currentPalette (video s)))) False mspf stopped)"
  define frame where "frame = map (\<lambda>index. RGBColor (shown ! unat index)) src"
  have "\<exists>s'. flip mspf paletteEffects stopped s = Some s'
      \<and> last (calls s') = RenderPresent (Texture frame)
      \<and> display_palette s' = shown \<and> framebuffer s' = src"
  proof (cases paletteEffects)
    case None
    let ?s' = "s\<lparr>surfaces := (surfaces s)[m := (surfaces s ! m)\<lparr>pixels := Packed32 frame\<rparr>],
             calls := calls s @ [SetPaletteColors m 0 256, RenderPresent (Texture frame)]\<rparr>"
    have sh: "shown = pal" by (simp add: shown_def None)
    have "flip mspf paletteEffects stopped s = Some ?s'"
      unfolding None flip_no_effects frame_def sh
      by (rule show_frame_ready [OF f(1-16)])
    moreover have "display_palette ?s' = shown"
      by (rule display_palette_ready [where n = n]) (use f(4) in \<open>simp_all add: f' sh\<close>)
    moreover have "framebuffer ?s' = src"
      by (rule framebuffer_ready [where n = n]) (use f(4) in \<open>simp_all add: f'\<close>)
    ultimately show ?thesis by simp
  next
    case (Some pe)
    let ?s' = "s\<lparr>surfaces := (surfaces s)
               [n := (surfaces s ! n)\<lparr>palette := Some shown\<rparr>,
                m := (surfaces s ! m)\<lparr>pixels := Packed32 frame\<rparr>],
             calls := calls s @ [ApplyEffects False mspf stopped,
               SetPaletteColors n 0 256, SetPaletteColors m 0 256,
               RenderPresent (Texture frame)]\<rparr>"
    have sh: "shown = pe (take 256 (deref_palette s (currentPalette (video s)))) False mspf stopped"
      by (simp add: shown_def Some)
    have l: "length shown = 256"
      using assms(3) by (simp add: sh Some getPalette_def)
    have "flip mspf paletteEffects stopped s = Some ?s'"
      unfolding Some frame_def
      by (rule flip_emulated [where pe = pe and mspf = mspf and stopped = stopped
            and shown = shown, OF f(1-16) f(18) assms(2) sh l])
    moreover have "display_palette ?s' = shown"
      by (rule display_palette_ready [where n = n]) (use f(4) in \<open>simp_all add: f'\<close>)
    moreover have "framebuffer ?s' = src"
      by (rule framebuffer_ready [where n = n]) (use f(4) in \<open>simp_all add: f'\<close>)
    ultimately show ?thesis by simp
  qed
  then obtain s' where s': "flip mspf paletteEffects stopped s = Some s'"
      "last (calls s') = RenderPresent (Texture frame)"
      "display_palette s' = shown" "framebuffer s' = src"
    by blast
  have sh2: "shown = (case paletteEffects of None \<Rightarrow> display_palette s
           | Some pe \<Rightarrow> pe (take 256 (deref_palette s (getPalette s))) False mspf stopped)"
    by (cases paletteEffects) (simp_all add: shown_def dp getPalette_def)
  have px: "\<forall>i<length src.
            frame ! i = RGBColor (shown ! unat (src ! i))
            \<and> ucast (drop_bit 24 (frame ! i)) = r (shown ! unat (src ! i))
            \<and> ucast (drop_bit 16 (frame ! i)) = g (shown ! unat (src ! i))
            \<and> ucast (drop_bit 8 (frame ! i)) = b (shown ! unat (src ! i))"
    by (simp add: frame_def RGBColor_r RGBColor_g RGBColor_b)
  show ?thesis
    apply (rule exI [of _ s'], rule exI [of _ frame])
    using s' px sh2 by (simp add: fb frame_def)
qed

theorem flip_remaps_every_pixel_witness:
  "ready example_world \<and> fakePalette (video example_world)
   \<and> length (example_effect (take 256 (deref_palette example_world (getPalette example_world)))
         False 16 False) = 256
   \<and> (\<exists>s' frame. flip 16 (Some example_effect) False example_world = Some s'
         \<and> last (calls s') = RenderPresent (Texture frame)
         \<and> length frame = 4
         \<and> (\<forall>i<4. frame ! i = RGBColor \<lparr>r = 17, g = 2, b = 3, a = 0\<rparr>))"
proof -
  have cur: "deref_palette example_world (getPalette example_world)
      = replicate 256 \<lparr>r = 1, g = 2, b = 3, a = 0\<rparr>"
    by (simp add: deref_palette_def getPalette_def example_world_def)
  have eff: "example_effect (take 256 (deref_palette example_world (getPalette example_world)))
         False 16 False = replicate 256 \<lparr>r = 17, g = 2, b = 3, a = 0\<rparr>"
    by (simp add: cur example_effect_def)
  have fb: "framebuffer example_world = [0, 1, 2, 3]"
    by (simp add: framebuffer_def deref_surface_def example_world_def)
  have h2: "fakePalette (video example_world)"
    by (simp add: example_world_def)
  have h3: "length (example_effect (take 256 (deref_palette example_world (getPalette example_world)))
         False 16 False) = 256"
    by (simp add: eff)
  have h3': "case Some example_effect of None \<Rightarrow> True
         | Some pe \<Rightarrow>
             length (pe (take 256 (deref_palette example_world (getPalette example_world)))
               False 16 False) = 256"
    using h3 by simp
  from flip_remaps_every_pixel [where paletteEffects = "Some example_effect" and mspf = 16
      and stopped = False and s = example_world, OF ready_example h2 h3']
  obtain s' frame where p: "flip 16 (Some example_effect) False example_world = Some s'"
    "last (calls s') = RenderPresent (Texture frame)"
    "display_palette s' = example_effect
       (take 256 (deref_palette example_world (getPalette example_world))) False 16 False"
    "length frame = length (framebuffer example_world)"
    "\<forall>i<length (framebuffer example_world).
        frame ! i = RGBColor (display_palette s' ! unat (framebuffer example_world ! i))"
    by auto
  have u: "unat x < 256" for x :: "8 word"
    using unsigned_less [of x, where 'a = nat] by simp
  have "\<forall>i<4. frame ! i = RGBColor \<lparr>r = 17, g = 2, b = 3, a = 0\<rparr>"
    using p(5) by (simp add: p(3) eff u fb)
  moreover have "length frame = 4"
    using p(4) by (simp add: fb)
  ultimately have "\<exists>s' frame. flip 16 (Some example_effect) False example_world = Some s'
         \<and> last (calls s') = RenderPresent (Texture frame)
         \<and> length frame = 4
         \<and> (\<forall>i<4. frame ! i = RGBColor \<lparr>r = 17, g = 2, b = 3, a = 0\<rparr>)"
    using p(1,2) by blast
  with ready_example h2 h3 show ?thesis
    by blast
qed

lemma ready_surfaces:
  assumes "ready s"
    and "video s' = video s" and "mem s' = mem s"
    and "length (surfaces s') = length (surfaces s)"
    and "screen (video s) = Some n" and "helper_surface (video s) = Some m"
    and "palette (surfaces s' ! n) = Some pal'" and "length pal' = 256"
    and "pixels (surfaces s' ! n) = Indexed8 src'"
    and "length src' = length (framebuffer s)"
    and "w (surfaces s' ! n) = w (surfaces s ! n)"
    and "h (surfaces s' ! n) = h (surfaces s ! n)"
    and "palette (surfaces s' ! m) = None"
    and "pixels (surfaces s' ! m) = Packed32 dst'"
    and "length dst' = length (framebuffer s)"
  shows "ready s'"
proof -
  from assms(1) obtain n0 m0 pal src dst where f:
    "screen (video s) = Some n0" "canvas (video s) = Some n0"
    "helper_surface (video s) = Some m0" "n0 \<noteq> m0"
    "n0 < length (surfaces s)" "m0 < length (surfaces s)"
    "palette (surfaces s ! n0) = Some pal" "pixels (surfaces s ! n0) = Indexed8 src"
    "pixels (surfaces s ! m0) = Packed32 dst" "palette (surfaces s ! m0) = None"
    "length pal = 256"
    "0 \<le> w (surfaces s ! n0)" "0 \<le> h (surfaces s ! n0)"
    "w (surfaces s ! n0) * h (surfaces s ! n0) < 2 ^ 31"
    "length src = nat (w (surfaces s ! n0) * h (surfaces s ! n0))"
    "length dst = length src"
    "256 \<le> length (logicalPalette (video s))"
    "256 \<le> length (deref_palette s (currentPalette (video s)))"
    by (rule readyE)
  have e: "n0 = n" "m0 = m"
    using f(1,3) assms(5,6) by simp_all
  note f = f [unfolded e]
  have fb: "framebuffer s = src"
    using f by (simp add: framebuffer_ready)
  have d: "deref_palette s' p = deref_palette s p" for p
    by (rule deref_palette_same [OF assms(2,3)])
  show ?thesis
    by (rule readyI [where n = n and m = m and pal = pal' and src = src' and dst = dst'])
       (use f(4) f(14) in \<open>simp_all add: assms(2-4) assms(7-15) f(1-3) f(5,6) f(11-13)
          f(15-18) d fb\<close>)
qed

section \<open>Setting the display up\<close>

lemma deref_palette_logical:
  "logicalPalette (video s') = logicalPalette (video s) \<Longrightarrow> mem s' = mem s \<Longrightarrow>
   deref_palette s' p = deref_palette s p"
  by (cases p) (simp_all add: deref_palette_def)

lemma expose_ok:
  assumes scr: "screen (video s) = Some n" and ln: "n < length (surfaces s)"
    and pal: "palette (surfaces s ! n) = Some pal" and lpal: "length pal = 256"
    and ll: "256 \<le> length (logicalPalette (video s))"
    and lc: "256 \<le> length (deref_palette s (currentPalette (video s)))"
  shows "expose s =
     Some (s\<lparr>surfaces := (surfaces s)
               [n := (surfaces s ! n)
                  \<lparr>palette := Some (take 256 (deref_palette s (currentPalette (video s))))\<rparr>],
             calls := calls s @ [SetPaletteColors n 0 256, SetPaletteColors n 0 256]\<rparr>)"
proof -
  let ?s1 = "s\<lparr>surfaces := (surfaces s)
        [n := (surfaces s ! n)\<lparr>palette := Some (take 256 (logicalPalette (video s)))\<rparr>],
      calls := calls s @ [SetPaletteColors n 0 256]\<rparr>"
  have a: "set_surface_palette (Some n) (logicalPalette (video s)) 0 256 s = Some ?s1"
    by (rule set_screen_palette [OF ln pal lpal ll])
  have d: "deref_palette ?s1 (currentPalette (video s)) = deref_palette s (currentPalette (video s))"
    by (rule deref_palette_logical) simp_all
  have b: "set_surface_palette (Some n) (deref_palette s (currentPalette (video s))) 0 256 ?s1
      = Some (?s1\<lparr>surfaces := (surfaces ?s1)
        [n := (surfaces ?s1 ! n)
           \<lparr>palette := Some (take 256 (deref_palette s (currentPalette (video s))))\<rparr>],
      calls := calls ?s1 @ [SetPaletteColors n 0 256]\<rparr>)"
    by (rule set_screen_palette [where pal = "take 256 (logicalPalette (video s))"])
       (use ll lc ln in simp_all)
  show ?thesis
    unfolding expose_def
    by (simp add: scr a d b ln)
qed

lemma reset_ready:
  assumes ll: "256 \<le> length (logicalPalette (video s))"
    and lc: "256 \<le> length (deref_palette s (currentPalette (video s)))"
  shows "\<exists>s'. reset pf width height s = Some (True, s') \<and> fakePalette (video s')
     \<and> (DEFAULT_SCREEN_WIDTH pf * DEFAULT_SCREEN_HEIGHT pf < 2 ^ 31 \<longrightarrow> ready s')
     \<and> display_palette s' = take 256 (deref_palette s (currentPalette (video s)))
     \<and> framebuffer s' = replicate (DEFAULT_SCREEN_WIDTH pf * DEFAULT_SCREEN_HEIGHT pf) 0
     \<and> currentPalette (video s') = currentPalette (video s)
     \<and> logicalPalette (video s') = logicalPalette (video s)
     \<and> mem s' = mem s \<and> fullscreen (video s') = fullscreen (video s)"
proof -
  let ?n = "length (surfaces s)"
  let ?cur = "deref_palette s (currentPalette (video s))"
  define s7 where "s7 =
    (let s1 = s\<lparr>video := (video s)\<lparr>screenW := width, screenH := height\<rparr>\<rparr>;
          (scr, s2) = SDL_CreateRGBSurface
                        (DEFAULT_SCREEN_WIDTH pf) (DEFAULT_SCREEN_HEIGHT pf) 8 s1;
          s3 = s2\<lparr>video := (video s2)\<lparr>screen := Some scr\<rparr>\<rparr>;
          (hlp, s4) = SDL_CreateRGBSurface
                        (DEFAULT_SCREEN_WIDTH pf) (DEFAULT_SCREEN_HEIGHT pf) 32 s3;
          s5 = s4\<lparr>video := (video s4)\<lparr>helper_surface := Some hlp\<rparr>\<rparr>;
          s6 = log_call (RenderPresent Cleared) s5
      in s6\<lparr>video := (video s6)
                 \<lparr>canvasW := screenW (video s6), canvasH := screenH (video s6),
                  canvas := screen (video s6)\<rparr>\<rparr>)"
  have r: "reset pf width height s =
     expose s7 \<bind> (\<lambda>s8. Some (True, s8\<lparr>video := (video s8)\<lparr>fakePalette := True\<rparr>\<rparr>))"
    unfolding reset_def s7_def Let_def by (simp split: prod.splits)
  have v: "screen (video s7) = Some ?n" "canvas (video s7) = Some ?n"
      "helper_surface (video s7) = Some (Suc ?n)"
      "logicalPalette (video s7) = logicalPalette (video s)"
      "currentPalette (video s7) = currentPalette (video s)"
      "mem s7 = mem s"
    by (simp_all add: s7_def Let_def SDL_CreateRGBSurface_def log_call_def)
  have sf: "surfaces s7 = surfaces s @
           [\<lparr>w = int (DEFAULT_SCREEN_WIDTH pf), h = int (DEFAULT_SCREEN_HEIGHT pf),
             palette = Some (replicate 256 white),
             pixels = Indexed8
               (replicate (DEFAULT_SCREEN_WIDTH pf * DEFAULT_SCREEN_HEIGHT pf) 0)\<rparr>,
            \<lparr>w = int (DEFAULT_SCREEN_WIDTH pf), h = int (DEFAULT_SCREEN_HEIGHT pf),
             palette = None,
             pixels = Packed32
               (replicate (DEFAULT_SCREEN_WIDTH pf * DEFAULT_SCREEN_HEIGHT pf) 0)\<rparr>]"
    by (simp add: s7_def Let_def SDL_CreateRGBSurface_def log_call_def)
  have d7: "deref_palette s7 p = deref_palette s p" for p
    by (rule deref_palette_logical) (simp_all add: v)
  define s8 where "s8 = s7\<lparr>surfaces := (surfaces s7)
               [?n := (surfaces s7 ! ?n)\<lparr>palette := Some (take 256 ?cur)\<rparr>],
             calls := calls s7 @ [SetPaletteColors ?n 0 256, SetPaletteColors ?n 0 256]\<rparr>"
  have e: "expose s7 = Some s8"
    unfolding s8_def
    using expose_ok [where s = s7 and n = ?n and pal = "replicate 256 white"]
    by (simp add: v sf d7 ll lc)
  define s' where "s' = s8\<lparr>video := (video s8)\<lparr>fakePalette := True\<rparr>\<rparr>"
  have res: "reset pf width height s = Some (True, s')"
    by (simp add: r e s'_def)
  have v': "screen (video s') = Some ?n" "canvas (video s') = Some ?n"
      "helper_surface (video s') = Some (Suc ?n)"
      "logicalPalette (video s') = logicalPalette (video s)"
      "currentPalette (video s') = currentPalette (video s)"
      "mem s' = mem s" "fakePalette (video s')"
    by (simp_all add: s'_def s8_def v)
  have sf': "surfaces s' = surfaces s @
           [\<lparr>w = int (DEFAULT_SCREEN_WIDTH pf), h = int (DEFAULT_SCREEN_HEIGHT pf),
             palette = Some (take 256 ?cur),
             pixels = Indexed8
               (replicate (DEFAULT_SCREEN_WIDTH pf * DEFAULT_SCREEN_HEIGHT pf) 0)\<rparr>,
            \<lparr>w = int (DEFAULT_SCREEN_WIDTH pf), h = int (DEFAULT_SCREEN_HEIGHT pf),
             palette = None,
             pixels = Packed32
               (replicate (DEFAULT_SCREEN_WIDTH pf * DEFAULT_SCREEN_HEIGHT pf) 0)\<rparr>]"
    by (simp add: s'_def s8_def sf)
  have d': "deref_palette s' p = deref_palette s p" for p
    by (rule deref_palette_logical) (simp_all add: v')
  have rd: "ready s'" if sz: "DEFAULT_SCREEN_WIDTH pf * DEFAULT_SCREEN_HEIGHT pf < 2 ^ 31"
  proof -
    have sz': "int (DEFAULT_SCREEN_WIDTH pf) * int (DEFAULT_SCREEN_HEIGHT pf) < 2 ^ 31"
      using sz by (metis of_nat_mult of_nat_less_iff of_nat_numeral of_nat_power)
    show ?thesis
      by (rule readyI [where n = ?n and m = "Suc ?n" and pal = "take 256 ?cur"
            and src = "replicate (DEFAULT_SCREEN_WIDTH pf * DEFAULT_SCREEN_HEIGHT pf) 0"
            and dst = "replicate (DEFAULT_SCREEN_WIDTH pf * DEFAULT_SCREEN_HEIGHT pf) 0"])
         (use sz' in \<open>simp_all add: v' sf' d' ll lc nat_mult_distrib nth_append\<close>)
  qed
  have fs: "fullscreen (video s') = fullscreen (video s)"
    by (simp add: s'_def s8_def s7_def Let_def SDL_CreateRGBSurface_def log_call_def)
  have dp: "display_palette s' = take 256 ?cur"
    by (rule display_palette_ready [where n = ?n]) (simp_all add: v' sf')
  have fb: "framebuffer s' = replicate (DEFAULT_SCREEN_WIDTH pf * DEFAULT_SCREEN_HEIGHT pf) 0"
    by (rule framebuffer_ready [where n = ?n]) (simp_all add: v' sf')
  from res rd v'(4-7) dp fb fs show ?thesis by blast
qed

section \<open>What the operations leave alone\<close>

lemma flip_video:
  assumes "flip mspf paletteEffects stopped s = Some s'"
  shows "video s' = video s \<and> mem s' = mem s"
proof -
  from assms obtain s1 where s1: "show_frame s1 = Some s'"
    and "paletteEffects = None \<and> s1 = s
       \<or> (\<exists>colors c. set_surface_palette (screen (video s)) colors 0 256 (log_call c s) = Some s1)"
    by (auto simp: flip_def Let_def bind_eq_Some_conv apply_direct_def
        split: option.splits if_splits)
  then have "video s1 = video s \<and> mem s1 = mem s"
    by (auto dest!: set_surface_palette_frame simp: display_only_def log_call_def)
  with show_frame_frame [OF s1] show ?thesis
    by (simp add: display_only_def)
qed

lemma flip_frame:
  assumes "flip mspf paletteEffects stopped s = Some s'" and "fakePalette (video s)"
  shows "display_only s s'"
proof -
  from assms obtain s1 where s1: "show_frame s1 = Some s'"
    and d: "paletteEffects = None \<and> s1 = s
       \<or> (\<exists>colors. set_surface_palette (screen (video s)) colors 0 256
             (log_call (ApplyEffects False mspf stopped) s) = Some s1)"
    by (auto simp: flip_def Let_def bind_eq_Some_conv
        split: option.splits if_splits)
  from d have "display_only s s1"
  proof
    assume "paletteEffects = None \<and> s1 = s"
    then show ?thesis by (simp add: display_only_refl)
  next
    assume "\<exists>colors. set_surface_palette (screen (video s)) colors 0 256
             (log_call (ApplyEffects False mspf stopped) s) = Some s1"
    then obtain colors where c: "set_surface_palette (screen (video s)) colors 0 256
             (log_call (ApplyEffects False mspf stopped) s) = Some s1"
      by blast
    have "display_only s (log_call (ApplyEffects False mspf stopped) s)"
      by (rule display_only_log) simp
    also have "display_only \<dots> s1"
      using c by (rule set_surface_palette_frame)
    finally show ?thesis .
  qed
  also have "display_only s1 s'"
    using s1 by (rule show_frame_frame)
  finally show ?thesis .
qed

lemma changePalette_frame: "changePalette p first amount s = Some s' \<Longrightarrow> display_only s s'"
  unfolding changePalette_def by (rule set_surface_palette_frame)

lemma restoreSurfacePalette_frame:
  "restoreSurfacePalette surface s = Some s' \<Longrightarrow> display_only s s'"
  unfolding restoreSurfacePalette_def by (rule set_surface_palette_frame)

lemma clearScreen_frame: "clearScreen index s = Some s' \<Longrightarrow> display_only s s'"
  unfolding clearScreen_def by (rule SDL_FillRect_frame)

lemma expose_frame:
  assumes "expose s = Some s'"
  shows "display_only s s'"
proof -
  from assms obtain s1 where
    a: "set_surface_palette (screen (video s)) (logicalPalette (video s)) 0 256 s = Some s1"
    and b: "set_surface_palette (screen (video s1))
       (deref_palette s1 (currentPalette (video s1))) 0 256 s1 = Some s'"
    by (auto simp: expose_def bind_eq_Some_conv)
  from a have "display_only s s1" by (rule set_surface_palette_frame)
  also from b have "display_only s1 s'" by (rule set_surface_palette_frame)
  finally show ?thesis .
qed

lemma setPalette_frame:
  assumes "setPalette pf p s = Some s'"
  shows "video s' = (video s)\<lparr>currentPalette := p\<rparr> \<and> mem s' = mem s
    \<and> direct_calls s' = direct_calls s"
proof -
  from assms obtain index s1 s2 s3 where
    a: "clearScreen index s = Some s1"
    and b: "flip 0 None False s1 = Some s2"
    and c: "set_surface_palette (screen (video s2)) (deref_palette s2 p) 0 256 s2 = Some s3"
    and s': "s' = s3\<lparr>video := (video s3)\<lparr>currentPalette := p\<rparr>\<rparr>"
    by (auto simp: setPalette_def bind_eq_Some_conv split: if_splits)
  from a have "display_only s s1" by (rule clearScreen_frame)
  also from b have "display_only s1 s2"
    unfolding flip_no_effects by (rule show_frame_frame)
  also from c have "display_only s2 s3" by (rule set_surface_palette_frame)
  finally show ?thesis
    by (simp add: s' display_only_def direct_calls_def)
qed

lemma reset_frame:
  assumes "reset pf width height s = Some (ok, s')"
  shows "ok \<and> fakePalette (video s')
    \<and> logicalPalette (video s') = logicalPalette (video s)
    \<and> currentPalette (video s') = currentPalette (video s)
    \<and> mem s' = mem s \<and> direct_calls s' = direct_calls s"
proof -
  from assms obtain s7 s8 where e: "expose s7 = Some s8"
    and s': "s' = s8\<lparr>video := (video s8)\<lparr>fakePalette := True\<rparr>\<rparr>" and ok: "ok"
    and s7: "logicalPalette (video s7) = logicalPalette (video s)"
      "currentPalette (video s7) = currentPalette (video s)"
      "mem s7 = mem s" "direct_calls s7 = direct_calls s"
    by (auto simp: reset_def Let_def SDL_CreateRGBSurface_def bind_eq_Some_conv
        log_call_def direct_calls_def split: prod.splits)
  from e have "display_only s7 s8" by (rule expose_frame)
  with s7 ok show ?thesis
    by (simp add: s' display_only_def direct_calls_def)
qed

lemma step_frame:
  assumes "step pf x s = Some s'"
  shows "logicalPalette (video s') = logicalPalette (video s) \<and> mem s' = mem s
    \<and> (fakePalette (video s) \<longrightarrow>
         fakePalette (video s') \<and> direct_calls s' = direct_calls s)"
proof (cases x)
  case (Init width height fs)
  with assms obtain ok s1 where
    r: "reset pf width height (s\<lparr>video := (video s)\<lparr>fullscreen := fs\<rparr>\<rparr>) = Some (ok, s1)"
    and s': "s' = s1 \<or> s' = findMaxResolution pf s1"
    by (auto simp: init_def bind_eq_Some_conv split: if_splits)
  from reset_frame [OF r] s' show ?thesis
    by (auto simp: findMaxResolution_def direct_calls_def)
next
  case (Reset width height)
  with assms obtain ok where "reset pf width height s = Some (ok, s')"
    by auto
  from reset_frame [OF this] show ?thesis by simp
next
  case (SetPalette p)
  with assms setPalette_frame [of pf p s s'] show ?thesis by simp
next
  case (ChangePalette p first amount)
  with assms changePalette_frame [of p first amount s s'] show ?thesis
    by (simp add: display_only_def)
next
  case (RestoreSurfacePalette surface)
  with assms restoreSurfacePalette_frame [of surface s s'] show ?thesis
    by (simp add: display_only_def)
next
  case Expose
  with assms expose_frame [of s s'] show ?thesis
    by (simp add: display_only_def)
next
  case (Update event)
  show ?thesis
  proof (cases "is_KEYDOWN event \<and> sym_is_RETURN event \<and> mod_has_ALT event")
    case True
    with assms Update obtain ok s2 where
      r: "reset pf (screenW (video s)) (screenH (video s))
            (s\<lparr>video := (video s)\<lparr>fullscreen := \<not> fullscreen (video s)\<rparr>\<rparr>) = Some (ok, s2)"
      and s': "s' = findMaxResolution pf s2"
      by (auto simp: update_def Let_def bind_eq_Some_conv)
    from reset_frame [OF r] show ?thesis
      by (simp add: s' findMaxResolution_def direct_calls_def)
  next
    case False
    with assms Update show ?thesis by (auto simp: update_def)
  qed
next
  case (Flip mspf paletteEffects stopped)
  with assms have f: "flip mspf paletteEffects stopped s = Some s'" by simp
  from flip_video [OF f] flip_frame [OF f] show ?thesis
    by (auto simp: display_only_def)
next
  case (ClearScreen index)
  with assms clearScreen_frame [of index s s'] show ?thesis
    by (simp add: display_only_def)
next
  case FindMaxResolution
  with assms show ?thesis
    by (auto simp: findMaxResolution_def direct_calls_def)
qed

lemma run_frame:
  "run pf xs s = Some s' \<Longrightarrow>
   logicalPalette (video s') = logicalPalette (video s) \<and> mem s' = mem s
    \<and> (fakePalette (video s) \<longrightarrow>
         fakePalette (video s') \<and> direct_calls s' = direct_calls s)"
proof (induction xs arbitrary: s)
  case Nil
  then show ?case by simp
next
  case (Cons x xs)
  then obtain s1 where a: "step pf x s = Some s1" and b: "run pf xs s1 = Some s'"
    by (auto split: option.splits)
  from step_frame [OF a] Cons.IH [OF b] show ?case by simp
qed

section \<open>Replacing the palette\<close>

lemma setPalette_ready:
  assumes rd: "ready s" and lp: "256 \<le> length (deref_palette s p)"
  shows "\<exists>s' n m.
      setPalette pf p s = Some s'
      \<and> screen (video s) = Some n \<and> helper_surface (video s) = Some m
      \<and> calls s' = calls s @
           [FillRect n (SDL_MapRGB pf (Some (display_palette s)) 0 0 0),
            SetPaletteColors m 0 256,
            RenderPresent (Texture (replicate (length (framebuffer s))
              (RGBColor (display_palette s !
                 unat (ucast (SDL_MapRGB pf (Some (display_palette s)) 0 0 0) :: 8 word))))),
            SetPaletteColors n 0 256]
      \<and> framebuffer s' = replicate (length (framebuffer s))
            (ucast (SDL_MapRGB pf (Some (display_palette s)) 0 0 0))
      \<and> display_palette s' = take 256 (deref_palette s p)
      \<and> getPalette s' = p
      \<and> deref_palette s' (getPalette s') = deref_palette s p
      \<and> ready s'"
proof -
  from rd obtain n m pal src dst where f:
    "screen (video s) = Some n" "canvas (video s) = Some n"
    "helper_surface (video s) = Some m" "n \<noteq> m"
    "n < length (surfaces s)" "m < length (surfaces s)"
    "palette (surfaces s ! n) = Some pal" "pixels (surfaces s ! n) = Indexed8 src"
    "pixels (surfaces s ! m) = Packed32 dst" "palette (surfaces s ! m) = None"
    "length pal = 256"
    "0 \<le> w (surfaces s ! n)" "0 \<le> h (surfaces s ! n)"
    "w (surfaces s ! n) * h (surfaces s ! n) < 2 ^ 31"
    "length src = nat (w (surfaces s ! n) * h (surfaces s ! n))"
    "length dst = length src"
    "256 \<le> length (logicalPalette (video s))"
    "256 \<le> length (deref_palette s (currentPalette (video s)))"
    by (rule readyE)
  note f' = f(1-3) f(5-13) f(15-18)
  have fb: "framebuffer s = src"
    using f by (simp add: framebuffer_ready)
  have dp: "display_palette s = pal"
    using f by (simp add: display_palette_ready)
  define index where "index = SDL_MapRGB pf (Some pal) 0 0 0"
  define blank where "blank = replicate (length src) (ucast index :: 8 word)"
  define frame where "frame = map (\<lambda>index. RGBColor (pal ! unat index)) blank"
  define s1 where "s1 = s\<lparr>surfaces := (surfaces s)
      [n := (surfaces s ! n)\<lparr>pixels := Indexed8 blank\<rparr>],
      calls := calls s @ [FillRect n index]\<rparr>"
  define s2 where "s2 = s1\<lparr>surfaces := (surfaces s1)
      [m := (surfaces s1 ! m)\<lparr>pixels := Packed32 frame\<rparr>],
      calls := calls s1 @ [SetPaletteColors m 0 256, RenderPresent (Texture frame)]\<rparr>"
  define s3 where "s3 = s2\<lparr>surfaces := (surfaces s2)
      [n := (surfaces s2 ! n)\<lparr>palette := Some (take 256 (deref_palette s p))\<rparr>],
      calls := calls s2 @ [SetPaletteColors n 0 256]\<rparr>"
  define s' where "s' = s3\<lparr>video := (video s3)\<lparr>currentPalette := p\<rparr>\<rparr>"
  have d0: "deref_surface s (Some n) = Some (surfaces s ! n)"
    by (simp add: deref_surface_def f')
  have c: "clearScreen index s = Some s1"
    by (simp add: clearScreen_def SDL_FillRect_def d0 f' log_call_def s1_def blank_def)
  have v1: "video s1 = video s" "mem s1 = mem s" "length (surfaces s1) = length (surfaces s)"
    by (simp_all add: s1_def)
  have n1: "surfaces s1 ! n = (surfaces s ! n)\<lparr>pixels := Indexed8 blank\<rparr>"
    "surfaces s1 ! m = surfaces s ! m"
    using f(4) by (simp_all add: s1_def f')
  have sh: "show_frame s1 = Some s2"
    unfolding s2_def frame_def
    by (rule show_frame_ready [where n = n and dst = dst])
       (use f(4) f(14) in \<open>simp_all add: v1 n1 f' blank_def\<close>)
  have v2: "video s2 = video s" "mem s2 = mem s" "length (surfaces s2) = length (surfaces s)"
    by (simp_all add: s2_def v1)
  have n2: "surfaces s2 ! n = (surfaces s ! n)\<lparr>pixels := Indexed8 blank\<rparr>"
    "surfaces s2 ! m = (surfaces s ! m)\<lparr>pixels := Packed32 frame\<rparr>"
    using f(4) by (simp_all add: s2_def v1 n1 f')
  have d2: "deref_palette s2 q = deref_palette s q" for q
    by (rule deref_palette_same [OF v2(1,2)])
  have sp: "set_surface_palette (Some n) (deref_palette s p) 0 256 s2 = Some s3"
    unfolding s3_def
    by (rule set_screen_palette [where pal = pal]) (simp_all add: v2 n2 f' lp)
  have v3: "video s3 = video s" "mem s3 = mem s" "length (surfaces s3) = length (surfaces s)"
    by (simp_all add: s3_def v2)
  have n3: "surfaces s3 ! n = (surfaces s ! n)
      \<lparr>pixels := Indexed8 blank, palette := Some (take 256 (deref_palette s p))\<rparr>"
    "surfaces s3 ! m = (surfaces s ! m)\<lparr>pixels := Packed32 frame\<rparr>"
    using f(4) by (simp_all add: s3_def v2 n2 f')
  have d3: "deref_surface s3 (Some n) = Some (surfaces s3 ! n)"
    by (simp add: deref_surface_def v3 f')
  have res: "setPalette pf p s = Some s'"
    unfolding setPalette_def
    using lp
    by (simp add: f' d0 index_def [symmetric] c flip_no_effects sh v2 d2 sp v3 d3 n3 s'_def)
  have cl: "calls s' = calls s @ [FillRect n index, SetPaletteColors m 0 256,
      RenderPresent (Texture frame), SetPaletteColors n 0 256]"
    by (simp add: s'_def s3_def s2_def s1_def)
  have v': "video s' = (video s)\<lparr>currentPalette := p\<rparr>" "mem s' = mem s"
      "surfaces s' = surfaces s3"
    by (simp_all add: s'_def v3)
  have fb': "framebuffer s' = blank"
    by (rule framebuffer_ready [where n = n]) (simp_all add: v' v3 n3 f')
  have dp': "display_palette s' = take 256 (deref_palette s p)"
    by (rule display_palette_ready [where n = n]) (simp_all add: v' v3 n3 f')
  have d': "deref_palette s' q = deref_palette s q" for q
    by (rule deref_palette_logical) (simp_all add: v')
  have rd': "ready s'"
    by (rule readyI [where n = n and m = m and pal = "take 256 (deref_palette s p)"
          and src = blank and dst = frame])
       (use f(4) f(14) lp in \<open>simp_all add: v' v3 n3 f' d' blank_def frame_def\<close>)
  have fr: "frame = replicate (length src) (RGBColor (pal ! unat (ucast index :: 8 word)))"
    by (simp add: frame_def blank_def)
  show ?thesis
    apply (rule exI [of _ s'], rule exI [of _ n], rule exI [of _ m])
    using res cl fb' dp' rd'
    by (simp add: f' fb dp index_def fr blank_def getPalette_def v' d')
qed

lemma sint_le_uint: "sint x \<le> uint x" for x :: "'a::len word"
proof -
  have "- (2 ^ (LENGTH('a) - Suc 0)) \<le> uint x"
    by (rule order_trans [where y = 0]) simp_all
  then show ?thesis
    by (simp add: sint_uint signed_take_bit_int_less_eq_self_iff)
qed

lemma display_palette_surfaces:
  "screen (video s') = screen (video s) \<Longrightarrow> surfaces s' = surfaces s \<Longrightarrow>
   display_palette s' = display_palette s"
  by (cases "screen (video s)") (simp_all add: display_palette_def deref_surface_def)

lemma framebuffer_surfaces:
  "screen (video s') = screen (video s) \<Longrightarrow> surfaces s' = surfaces s \<Longrightarrow>
   framebuffer s' = framebuffer s"
  by (cases "screen (video s)") (simp_all add: framebuffer_def deref_surface_def)

lemma changePalette_props:
  assumes "changePalette p first amount s = Some s'"
  shows "\<exists>n. screen (video s) = Some n
           \<and> calls s' = calls s @ [SetPaletteColors n (uint first) (sint amount)]"
    and "framebuffer s' = framebuffer s"
    and "length (display_palette s') = length (display_palette s)"
    and "\<forall>i<length (display_palette s).
           i < unat first \<or> unat first + unat amount \<le> i \<longrightarrow>
           display_palette s' ! i = display_palette s ! i"
proof -
  from assms obtain n surf where n: "screen (video s) = Some n"
    and surf: "deref_surface s (Some n) = Some surf"
    and cases: "palette surf = None \<and> s' = log_call (SetPaletteColors n (uint first) (sint amount)) s
      \<or> (\<exists>pal pal'. palette surf = Some pal
            \<and> SDL_SetPaletteColors pal (deref_palette s p) (uint first) (sint amount) = Some pal'
            \<and> s' = log_call (SetPaletteColors n (uint first) (sint amount))
                 (s\<lparr>surfaces := (surfaces s)[n := surf\<lparr>palette := Some pal'\<rparr>]\<rparr>))"
    by (auto simp: changePalette_def set_surface_palette_def split: option.splits)
  from surf have ln: "n < length (surfaces s)" and sf: "surf = surfaces s ! n"
    by (auto simp: deref_surface_def split: if_splits)
  show "\<exists>n. screen (video s) = Some n
           \<and> calls s' = calls s @ [SetPaletteColors n (uint first) (sint amount)]"
    using n cases by (auto simp: log_call_def)
  show "framebuffer s' = framebuffer s"
    using n cases ln sf by (auto simp: log_call_def framebuffer_def deref_surface_def)
  show "length (display_palette s') = length (display_palette s)"
    using n cases ln sf
    by (auto simp: log_call_def display_palette_def deref_surface_def
        dest: SDL_SetPaletteColors_length)
  show "\<forall>i<length (display_palette s).
           i < unat first \<or> unat first + unat amount \<le> i \<longrightarrow>
           display_palette s' ! i = display_palette s ! i"
  proof (intro allI impI)
    fix i assume i: "i < length (display_palette s)"
      and out: "i < unat first \<or> unat first + unat amount \<le> i"
    from cases show "display_palette s' ! i = display_palette s ! i"
    proof
      assume "palette surf = None \<and> s' = log_call (SetPaletteColors n (uint first) (sint amount)) s"
      then have "display_palette s' = display_palette s"
        by (intro display_palette_surfaces) (simp_all add: log_call_def)
      then show ?thesis by simp
    next
      assume "\<exists>pal pal'. palette surf = Some pal
            \<and> SDL_SetPaletteColors pal (deref_palette s p) (uint first) (sint amount) = Some pal'
            \<and> s' = log_call (SetPaletteColors n (uint first) (sint amount))
                 (s\<lparr>surfaces := (surfaces s)[n := surf\<lparr>palette := Some pal'\<rparr>]\<rparr>)"
      then obtain pal pal' where pal: "palette surf = Some pal"
        and set: "SDL_SetPaletteColors pal (deref_palette s p) (uint first) (sint amount) = Some pal'"
        and s': "s' = log_call (SetPaletteColors n (uint first) (sint amount))
                 (s\<lparr>surfaces := (surfaces s)[n := surf\<lparr>palette := Some pal'\<rparr>]\<rparr>)"
        by blast
      have dp: "display_palette s = pal"
        using n ln sf pal by (simp add: display_palette_def deref_surface_def)
      have dp': "display_palette s' = pal'"
        using n ln by (simp add: s' log_call_def display_palette_def deref_surface_def)
      have u: "uint first = int (unat first)" "uint amount = int (unat amount)"
        by simp_all
      have "int i < uint first \<or> uint first + sint amount \<le> int i"
        using out sint_le_uint [of amount] unfolding u by linarith
      with SDL_SetPaletteColors_outside [OF set, of i] i show ?thesis
        by (simp add: dp dp')
    qed
  qed
qed

lemma sint_nonneg_eq_uint:
  fixes x :: "'a::len word"
  assumes "0 \<le> sint x"
  shows "sint x = uint x"
proof -
  have "sint x < 2 ^ (LENGTH('a) - 1)"
    by (rule sint_lt)
  also have "(2 :: int) ^ (LENGTH('a) - 1) \<le> 2 ^ LENGTH('a)"
    by (rule power_increasing) simp_all
  finally have "take_bit LENGTH('a) (sint x) = sint x"
    using assms by (simp add: take_bit_int_eq_self)
  then show ?thesis
    by (simp add: uint_sint)
qed

lemma set_surface_palette_ready:
  assumes rd: "ready s" and sp: "set_surface_palette k colors f c s = Some s'"
  shows "ready s'"
proof -
  from rd obtain n m pal src dst where g:
    "screen (video s) = Some n" "canvas (video s) = Some n"
    "helper_surface (video s) = Some m" "n \<noteq> m"
    "n < length (surfaces s)" "m < length (surfaces s)"
    "palette (surfaces s ! n) = Some pal" "pixels (surfaces s ! n) = Indexed8 src"
    "pixels (surfaces s ! m) = Packed32 dst" "palette (surfaces s ! m) = None"
    "length pal = 256"
    "0 \<le> w (surfaces s ! n)" "0 \<le> h (surfaces s ! n)"
    "w (surfaces s ! n) * h (surfaces s ! n) < 2 ^ 31"
    "length src = nat (w (surfaces s ! n) * h (surfaces s ! n))"
    "length dst = length src"
    "256 \<le> length (logicalPalette (video s))"
    "256 \<le> length (deref_palette s (currentPalette (video s)))"
    by (rule readyE)
  have fb: "framebuffer s = src"
    using g by (simp add: framebuffer_ready)
  from sp have d: "display_only s s'"
    by (rule set_surface_palette_frame)
  from sp obtain j where j: "k = Some j" "j < length (surfaces s)"
    and cases0: "palette (surfaces s ! j) = None \<and> surfaces s' = surfaces s
      \<or> (\<exists>pal0 pal'. palette (surfaces s ! j) = Some pal0
            \<and> SDL_SetPaletteColors pal0 colors f c = Some pal'
            \<and> surfaces s' = (surfaces s)[j := (surfaces s ! j)\<lparr>palette := Some pal'\<rparr>])"
    by (auto simp: set_surface_palette_def deref_surface_def log_call_def
        split: option.splits if_splits)
  then have cases: "palette (surfaces s ! j) = None \<and> surfaces s' = surfaces s
      \<or> (\<exists>pal0 pal'. palette (surfaces s ! j) = Some pal0 \<and> length pal' = length pal0
            \<and> surfaces s' = (surfaces s)[j := (surfaces s ! j)\<lparr>palette := Some pal'\<rparr>])"
    by (auto dest: SDL_SetPaletteColors_length)
  have dv: "video s' = video s" "mem s' = mem s" "length (surfaces s') = length (surfaces s)"
    using d by (simp_all add: display_only_def)
  from cases show ?thesis
  proof
    assume "palette (surfaces s ! j) = None \<and> surfaces s' = surfaces s"
    then show ?thesis
      by (intro ready_surfaces [OF rd dv g(1) g(3), where pal' = pal and src' = src
            and dst' = dst]) (simp_all add: g fb)
  next
    assume "\<exists>pal0 pal'. palette (surfaces s ! j) = Some pal0 \<and> length pal' = length pal0
            \<and> surfaces s' = (surfaces s)[j := (surfaces s ! j)\<lparr>palette := Some pal'\<rparr>]"
    then obtain pal0 pal' where p: "palette (surfaces s ! j) = Some pal0"
      "length pal' = length pal0"
      "surfaces s' = (surfaces s)[j := (surfaces s ! j)\<lparr>palette := Some pal'\<rparr>]"
      by blast
    from p(1) g(10) have jm: "j \<noteq> m" by auto
    show ?thesis
    proof (cases "j = n")
      case True
      with p g(7) have "pal0 = pal" by simp
      with p True jm show ?thesis
        by (intro ready_surfaces [OF rd dv g(1) g(3), where pal' = pal' and src' = src
            and dst' = dst]) (simp_all add: g(5-) fb)
    next
      case False
      with p jm show ?thesis
        by (intro ready_surfaces [OF rd dv g(1) g(3), where pal' = pal and src' = src
            and dst' = dst]) (simp_all add: g(5-) fb)
    qed
  qed
qed

lemma changePalette_ready:
  assumes rd: "ready s" and pos: "0 \<le> sint amount"
    and enough: "min (unat amount) (256 - unat first) \<le> length (deref_palette s p)"
  shows "\<exists>s'. changePalette p first amount s = Some s' \<and> ready s'
     \<and> (\<forall>i<256. unat first \<le> i \<and> i < unat first + unat amount \<longrightarrow>
           display_palette s' ! i = deref_palette s p ! (i - unat first))"
proof -
  from rd obtain n m pal src dst where g:
    "screen (video s) = Some n" "canvas (video s) = Some n"
    "helper_surface (video s) = Some m" "n \<noteq> m"
    "n < length (surfaces s)" "m < length (surfaces s)"
    "palette (surfaces s ! n) = Some pal" "pixels (surfaces s ! n) = Indexed8 src"
    "pixels (surfaces s ! m) = Packed32 dst" "palette (surfaces s ! m) = None"
    "length pal = 256"
    "0 \<le> w (surfaces s ! n)" "0 \<le> h (surfaces s ! n)"
    "w (surfaces s ! n) * h (surfaces s ! n) < 2 ^ 31"
    "length src = nat (w (surfaces s ! n) * h (surfaces s ! n))"
    "length dst = length src"
    "256 \<le> length (logicalPalette (video s))"
    "256 \<le> length (deref_palette s (currentPalette (video s)))"
    by (rule readyE)
  have su: "sint amount = uint amount"
    by (rule sint_nonneg_eq_uint [OF pos])
  have fn: "unat first < 256"
    using unsigned_less [of first, where 'a = nat] by simp
  have f256: "uint first < 256"
    using unsigned_less [of first, where 'a = int] by simp
  define c where "c = (if int (length pal) - uint first < sint amount
      then int (length pal) - uint first else sint amount)"
  have sub: "int (256 - unat first) = 256 - uint first"
    using fn by (simp add: of_nat_diff)
  have c0: "\<not> c < 0"
    using f256 pos by (simp add: c_def g(11))
  have ia: "int (unat amount) = uint amount"
    by simp
  have "int (min (unat amount) (256 - unat first)) = min (uint amount) (256 - uint first)"
    by (simp only: of_nat_min sub ia)
  also have "\<dots> = c"
    by (simp add: c_def su g(11) min_def)
  finally have "c \<le> int (length (deref_palette s p))"
    using enough by (metis of_nat_le_iff)
  then have cl: "\<not> int (length (deref_palette s p)) < c"
    by simp
  have set: "SDL_SetPaletteColors pal (deref_palette s p) (uint first) (sint amount)
      = Some (take (nat (uint first)) pal @ take (nat c) (deref_palette s p)
                    @ drop (nat (uint first) + nat c) pal)"
    unfolding SDL_SetPaletteColors_def Let_def c_def [symmetric]
    using c0 cl by simp
  define pal' where "pal' = take (nat (uint first)) pal @ take (nat c) (deref_palette s p)
                    @ drop (nat (uint first) + nat c) pal"
  note set = set [folded pal'_def]
  define s' where "s' = log_call (SetPaletteColors n (uint first) (sint amount))
      (s\<lparr>surfaces := (surfaces s)[n := (surfaces s ! n)\<lparr>palette := Some pal'\<rparr>]\<rparr>)"
  have res: "changePalette p first amount s = Some s'"
    by (simp add: changePalette_def set_surface_palette_def deref_surface_def g set s'_def)
  have rd': "ready s'"
    using rd res unfolding changePalette_def by (rule set_surface_palette_ready)
  have dp': "display_palette s' = pal'"
    by (rule display_palette_ready [where n = n]) (simp_all add: s'_def log_call_def g)
  have "\<forall>i<256. unat first \<le> i \<and> i < unat first + unat amount \<longrightarrow>
           pal' ! i = deref_palette s p ! (i - unat first)"
  proof (intro allI impI)
    fix i :: nat assume i: "i < 256" and r: "unat first \<le> i \<and> i < unat first + unat amount"
    have a1: "uint first = int (unat first)" "uint amount = int (unat amount)"
      by simp_all
    from r have "uint first \<le> int i" "int i < uint first + sint amount"
      unfolding su a1 by linarith+
    with SDL_SetPaletteColors_inside [OF set, of i] i
    show "pal' ! i = deref_palette s p ! (i - unat first)"
      by (simp add: g(11))
  qed
  with res rd' dp' show ?thesis by simp
qed

text \<open>
  Claim C3. In a state where the display is set up, \<open>setPalette\<close> with a palette of
  256 readable entries returns, and what it has done is, in this order: fill the
  screen with the pixel value that \<open>SDL_MapRGB\<close> gives for black, present one frame
  (every pixel of it the colour that the old palette has for that value), and only then
  copy 256 entries to the screen's palette. Afterwards the framebuffer is blank, the
  display palette is the supplied one, and \<open>getPalette\<close> returns the supplied pointer.
\<close>

theorem setPalette_blanks_then_replaces:
  assumes "ready s" and "256 \<le> length (deref_palette s p)"
  shows "\<exists>s' n m.
      setPalette pf p s = Some s'
      \<and> screen (video s) = Some n \<and> helper_surface (video s) = Some m
      \<and> calls s' = calls s @
           [FillRect n (SDL_MapRGB pf (Some (display_palette s)) 0 0 0),
            SetPaletteColors m 0 256,
            RenderPresent (Texture (replicate (length (framebuffer s))
              (RGBColor (display_palette s !
                 unat (ucast (SDL_MapRGB pf (Some (display_palette s)) 0 0 0) :: 8 word))))),
            SetPaletteColors n 0 256]
      \<and> framebuffer s' = replicate (length (framebuffer s))
            (ucast (SDL_MapRGB pf (Some (display_palette s)) 0 0 0))
      \<and> display_palette s' = take 256 (deref_palette s p)
      \<and> getPalette s' = p
      \<and> deref_palette s' (getPalette s') = deref_palette s p"
  using setPalette_ready [OF assms, of pf] by blast

theorem setPalette_blanks_then_replaces_witness:
  "ready example_world \<and> 256 \<le> length (deref_palette example_world LogicalPalette)
   \<and> (\<exists>s'. setPalette example_platform LogicalPalette example_world = Some s'
         \<and> framebuffer s' = [0, 0, 0, 0]
         \<and> display_palette s' = replicate 256 white
         \<and> getPalette s' = LogicalPalette)"
proof -
  have h: "256 \<le> length (deref_palette example_world LogicalPalette)"
    by (simp add: deref_palette_def example_world_def)
  have fb: "framebuffer example_world = [0, 1, 2, 3]"
    by (simp add: framebuffer_def deref_surface_def example_world_def)
  have lp: "deref_palette example_world LogicalPalette = replicate 256 white"
    by (simp add: deref_palette_def example_world_def)
  from setPalette_blanks_then_replaces [OF ready_example h, of example_platform]
  obtain s' where s': "setPalette example_platform LogicalPalette example_world = Some s'"
    "framebuffer s' = replicate (length (framebuffer example_world))
            (ucast (SDL_MapRGB example_platform (Some (display_palette example_world)) 0 0 0))"
    "display_palette s' = take 256 (deref_palette example_world LogicalPalette)"
    "getPalette s' = LogicalPalette"
    by blast
  have "framebuffer s' = [0, 0, 0, 0]"
    by (simp add: s'(2) fb example_platform_def numeral_eq_Suc)
  moreover have "display_palette s' = replicate 256 white"
    by (simp add: s'(3) lp)
  ultimately show ?thesis
    using ready_example h s'(1,4) by blast
qed

text \<open>
  Claim C4. A \<open>changePalette\<close> that returns has made one call, the palette update of
  the screen for \<open>first\<close> and \<open>amount\<close>: no fill and no presentation; the framebuffer
  is as it was, and every entry of the display palette outside \<open>[first, first + amount)\<close>
  is as it was. In a state where the display is set up it does return whenever the
  amount is not negative as an int and the source has the entries to be copied, and the
  entries inside the range are then the first entries of the source.
\<close>

theorem changePalette_updates_only_range:
  "(changePalette p first amount s = Some s' \<longrightarrow>
      (\<exists>n. screen (video s) = Some n
           \<and> calls s' = calls s @ [SetPaletteColors n (uint first) (sint amount)])
      \<and> framebuffer s' = framebuffer s
      \<and> length (display_palette s') = length (display_palette s)
      \<and> (\<forall>i<length (display_palette s).
            i < unat first \<or> unat first + unat amount \<le> i \<longrightarrow>
            display_palette s' ! i = display_palette s ! i))
   \<and> (ready s \<and> 0 \<le> sint amount
        \<and> min (unat amount) (256 - unat first) \<le> length (deref_palette s p) \<longrightarrow>
      (\<exists>t. changePalette p first amount s = Some t
         \<and> (\<forall>i<256. unat first \<le> i \<and> i < unat first + unat amount \<longrightarrow>
               display_palette t ! i = deref_palette s p ! (i - unat first))))"
proof (intro conjI impI)
  assume a: "changePalette p first amount s = Some s'"
  show "\<exists>n. screen (video s) = Some n
           \<and> calls s' = calls s @ [SetPaletteColors n (uint first) (sint amount)]"
    using a by (rule changePalette_props)
  show "framebuffer s' = framebuffer s"
    using a by (rule changePalette_props)
  show "length (display_palette s') = length (display_palette s)"
    using a by (rule changePalette_props)
  show "\<forall>i<length (display_palette s).
            i < unat first \<or> unat first + unat amount \<le> i \<longrightarrow>
            display_palette s' ! i = display_palette s ! i"
    using a by (rule changePalette_props)
next
  assume "ready s \<and> 0 \<le> sint amount
        \<and> min (unat amount) (256 - unat first) \<le> length (deref_palette s p)"
  then show "\<exists>t. changePalette p first amount s = Some t
         \<and> (\<forall>i<256. unat first \<le> i \<and> i < unat first + unat amount \<longrightarrow>
               display_palette t ! i = deref_palette s p ! (i - unat first))"
    using changePalette_ready [of s amount first p] by blast
qed

theorem changePalette_updates_only_range_witness:
  "ready example_world \<and> 0 \<le> sint (5 :: 32 word)
   \<and> min (unat (5 :: 32 word)) (256 - unat (10 :: 8 word))
        \<le> length (deref_palette example_world (Caller 0))
   \<and> (\<exists>s'. changePalette (Caller 0) 10 5 example_world = Some s'
         \<and> framebuffer s' = [0, 1, 2, 3]
         \<and> display_palette s' ! 9 = white
         \<and> display_palette s' ! 10 = \<lparr>r = 1, g = 2, b = 3, a = 0\<rparr>
         \<and> display_palette s' ! 14 = \<lparr>r = 1, g = 2, b = 3, a = 0\<rparr>
         \<and> display_palette s' ! 15 = white)"
proof -
  have h2: "0 \<le> sint (5 :: 32 word)" by simp
  have cp: "deref_palette example_world (Caller 0) = replicate 256 \<lparr>r = 1, g = 2, b = 3, a = 0\<rparr>"
    by (simp add: deref_palette_def example_world_def)
  have h3: "min (unat (5 :: 32 word)) (256 - unat (10 :: 8 word))
        \<le> length (deref_palette example_world (Caller 0))"
    by (simp add: cp)
  have fb: "framebuffer example_world = [0, 1, 2, 3]"
    by (simp add: framebuffer_def deref_surface_def example_world_def)
  have dp: "display_palette example_world = replicate 256 white"
    by (simp add: display_palette_def deref_surface_def example_world_def)
  note t = changePalette_updates_only_range [where p = "Caller 0" and first = 10
      and amount = 5 and s = example_world]
  from t ready_example h2 h3 obtain s' where
    s': "changePalette (Caller 0) 10 5 example_world = Some s'"
    and ins: "\<forall>i<256. unat (10 :: 8 word) \<le> i \<and> i < unat (10 :: 8 word) + unat (5 :: 32 word) \<longrightarrow>
               display_palette s' ! i = deref_palette example_world (Caller 0) ! (i - unat (10 :: 8 word))"
    by blast
  from t [where s' = s'] s' have
    f: "framebuffer s' = framebuffer example_world"
    and out: "\<forall>i<length (display_palette example_world).
            i < unat (10 :: 8 word) \<or> unat (10 :: 8 word) + unat (5 :: 32 word) \<le> i \<longrightarrow>
            display_palette s' ! i = display_palette example_world ! i"
    by blast+
  have "display_palette s' ! 9 = white" "display_palette s' ! 15 = white"
    using out by (simp_all add: dp)
  moreover have "display_palette s' ! 10 = \<lparr>r = 1, g = 2, b = 3, a = 0\<rparr>"
     "display_palette s' ! 14 = \<lparr>r = 1, g = 2, b = 3, a = 0\<rparr>"
    using ins by (simp_all add: cp)
  ultimately show ?thesis
    using ready_example h2 h3 s' f fb by auto
qed

text \<open>
  Claim C10. \<open>changePalette\<close> leaves the current palette pointer and the entries it
  points to as they were. A later \<open>flip\<close> with an effect chain (palette emulated)
  therefore pushes 256 entries computed from the current palette alone: the display
  palette after it is what it would have been without the \<open>changePalette\<close>, whose
  entries are gone.
\<close>

theorem changePalette_discarded_by_flip:
  assumes rd: "ready s" and fake: "fakePalette (video s)"
    and cp: "changePalette p first amount s = Some s1"
    and len: "length (pe (take 256 (deref_palette s (getPalette s))) False mspf stopped) = 256"
  shows "getPalette s1 = getPalette s
     \<and> deref_palette s1 (getPalette s1) = deref_palette s (getPalette s)
     \<and> (\<exists>s2 t2 n m shown.
           flip mspf (Some pe) stopped s1 = Some s2
           \<and> flip mspf (Some pe) stopped s = Some t2
           \<and> screen (video s1) = Some n
           \<and> calls s2 = calls s1 @ [ApplyEffects False mspf stopped,
                 SetPaletteColors n 0 256, SetPaletteColors m 0 256, RenderPresent shown]
           \<and> display_palette s2 = pe (take 256 (deref_palette s (getPalette s))) False mspf stopped
           \<and> display_palette s2 = display_palette t2)"
proof -
  from cp have d: "display_only s s1"
    by (rule changePalette_frame)
  then have v: "video s1 = video s" "mem s1 = mem s"
    by (simp_all add: display_only_def)
  have g: "getPalette s1 = getPalette s"
    by (simp add: getPalette_def v)
  have dr: "deref_palette s1 q = deref_palette s q" for q
    by (rule deref_palette_same [OF v])
  have rd1: "ready s1"
    using rd cp unfolding changePalette_def by (rule set_surface_palette_ready)
  have fake1: "fakePalette (video s1)"
    using fake by (simp add: v)
  have len1: "length (pe (take 256 (deref_palette s1 (getPalette s1))) False mspf stopped) = 256"
    using len by (simp add: g dr)
  from flip_effects_ready [where pe = pe and mspf = mspf and stopped = stopped,
      OF rd1 fake1 len1] obtain s2 n m shown where
    s2: "flip mspf (Some pe) stopped s1 = Some s2" "screen (video s1) = Some n"
      "calls s2 = calls s1 @ [ApplyEffects False mspf stopped,
            SetPaletteColors n 0 256, SetPaletteColors m 0 256, RenderPresent shown]"
      "display_palette s2 = pe (take 256 (deref_palette s1 (getPalette s1))) False mspf stopped"
    by blast
  from flip_effects_ready [where pe = pe and mspf = mspf and stopped = stopped,
      OF rd fake len] obtain t2 where
    t2: "flip mspf (Some pe) stopped s = Some t2"
      "display_palette t2 = pe (take 256 (deref_palette s (getPalette s))) False mspf stopped"
    by blast
  have "display_palette s2 = pe (take 256 (deref_palette s (getPalette s))) False mspf stopped"
    using s2(4) by (simp add: g dr)
  with s2 t2 g dr show ?thesis
    by (intro conjI exI [of _ s2] exI [of _ t2] exI [of _ n] exI [of _ m] exI [of _ shown])
       simp_all
qed

theorem changePalette_discarded_by_flip_witness:
  "ready example_world \<and> fakePalette (video example_world)
   \<and> (\<exists>s1 s2. changePalette (Caller 0) 10 5 example_world = Some s1
         \<and> display_palette s1 ! 10 = \<lparr>r = 1, g = 2, b = 3, a = 0\<rparr>
         \<and> getPalette s1 = Caller 0
         \<and> flip 16 (Some example_effect) False s1 = Some s2
         \<and> display_palette s2 = replicate 256 \<lparr>r = 17, g = 2, b = 3, a = 0\<rparr>)"
proof -
  have h2: "fakePalette (video example_world)"
    by (simp add: example_world_def)
  have cp: "deref_palette example_world (Caller 0) = replicate 256 \<lparr>r = 1, g = 2, b = 3, a = 0\<rparr>"
    by (simp add: deref_palette_def example_world_def)
  have gp: "getPalette example_world = Caller 0"
    by (simp add: getPalette_def example_world_def)
  have eff: "example_effect (take 256 (deref_palette example_world (getPalette example_world)))
         False 16 False = replicate 256 \<lparr>r = 17, g = 2, b = 3, a = 0\<rparr>"
    by (simp add: gp cp example_effect_def)
  have h4: "length (example_effect (take 256 (deref_palette example_world (getPalette example_world)))
         False 16 False) = 256"
    by (simp add: eff)
  have "0 \<le> sint (5 :: 32 word)" by simp
  moreover have "min (unat (5 :: 32 word)) (256 - unat (10 :: 8 word))
        \<le> length (deref_palette example_world (Caller 0))"
    by (simp add: cp)
  ultimately obtain s1 where s1: "changePalette (Caller 0) 10 5 example_world = Some s1"
    and ins: "\<forall>i<256. unat (10 :: 8 word) \<le> i \<and> i < unat (10 :: 8 word) + unat (5 :: 32 word) \<longrightarrow>
        display_palette s1 ! i = deref_palette example_world (Caller 0) ! (i - unat (10 :: 8 word))"
    using changePalette_ready [OF ready_example, of 5 10 "Caller 0"] by blast
  have d10: "display_palette s1 ! 10 = \<lparr>r = 1, g = 2, b = 3, a = 0\<rparr>"
    using ins by (simp add: cp)
  from changePalette_discarded_by_flip [where pe = example_effect and mspf = 16
      and stopped = False, OF ready_example h2 s1 h4]
  obtain s2 where "getPalette s1 = getPalette example_world"
    "flip 16 (Some example_effect) False s1 = Some s2"
    "display_palette s2 = example_effect
       (take 256 (deref_palette example_world (getPalette example_world))) False 16 False"
    by blast
  with s1 d10 ready_example h2 show ?thesis
    by (auto simp: gp cp example_effect_def)
qed

section \<open>Construction and initialisation\<close>

lemma fold_modify_nth:
  "distinct xs \<Longrightarrow> j < length dst \<Longrightarrow>
   fold (\<lambda>i d. d[i := F i (d ! i)]) xs dst ! j = (if j \<in> set xs then F j (dst ! j) else dst ! j)"
proof (induction xs arbitrary: dst)
  case Nil
  then show ?case by simp
next
  case (Cons x xs)
  then show ?case
    by (cases "j = x") (auto simp: nth_list_update)
qed

lemma fold_modify_length:
  "length (fold (\<lambda>i d. d[i := F i (d ! i)]) xs dst) = length dst"
  by (induction xs arbitrary: dst) auto

lemma Video_Video_logical:
  assumes "i < 256" and "length (logicalPalette (video s0)) = 256"
  shows "logicalPalette (video (Video_Video s0)) ! i
     = (logicalPalette (video s0) ! i)\<lparr>r := of_nat i, g := of_nat i, b := of_nat i\<rparr>"
proof -
  have "fold (\<lambda>count lp. lp[count := (\<lambda>n c. c\<lparr>r := of_nat n, g := of_nat n, b := of_nat n\<rparr>)
            count (lp ! count)]) [0..<256] (logicalPalette (video s0)) ! i
     = (if i \<in> set [0..<256]
        then (\<lambda>n c. c\<lparr>r := of_nat n, g := of_nat n, b := of_nat n\<rparr>) i (logicalPalette (video s0) ! i)
        else logicalPalette (video s0) ! i)"
    by (rule fold_modify_nth) (simp_all add: assms)
  then show ?thesis
    using assms(1) by (simp add: Video_Video_def)
qed

lemma Video_Video_length:
  "length (logicalPalette (video (Video_Video s0))) = length (logicalPalette (video s0))"
proof -
  have "length (fold (\<lambda>count lp. lp[count := (\<lambda>n c. c\<lparr>r := of_nat n, g := of_nat n, b := of_nat n\<rparr>)
            count (lp ! count)]) [0..<256] (logicalPalette (video s0)))
     = length (logicalPalette (video s0))"
    by (rule fold_modify_length)
  then show ?thesis
    by (simp add: Video_Video_def)
qed

lemma unat_of_nat_byte: "i < 256 \<Longrightarrow> unat (of_nat i :: 8 word) = i"
  by (simp add: unsigned_of_nat take_bit_nat_eq_self)

lemma ready_findMaxResolution:
  assumes "ready s"
  shows "ready (findMaxResolution pf s)"
proof -
  have d: "deref_palette (findMaxResolution pf s) p = deref_palette s p" for p
    by (rule deref_palette_logical) (simp_all add: findMaxResolution_def)
  from assms obtain n m pal src dst where f:
    "screen (video s) = Some n" "canvas (video s) = Some n"
    "helper_surface (video s) = Some m" "n \<noteq> m"
    "n < length (surfaces s)" "m < length (surfaces s)"
    "palette (surfaces s ! n) = Some pal" "pixels (surfaces s ! n) = Indexed8 src"
    "pixels (surfaces s ! m) = Packed32 dst" "palette (surfaces s ! m) = None"
    "length pal = 256"
    "0 \<le> w (surfaces s ! n)" "0 \<le> h (surfaces s ! n)"
    "w (surfaces s ! n) * h (surfaces s ! n) < 2 ^ 31"
    "length src = nat (w (surfaces s ! n) * h (surfaces s ! n))"
    "length dst = length src"
    "256 \<le> length (logicalPalette (video s))"
    "256 \<le> length (deref_palette s (currentPalette (video s)))"
    by (rule readyE)
  have v: "screen (video (findMaxResolution pf s)) = screen (video s)"
    "canvas (video (findMaxResolution pf s)) = canvas (video s)"
    "helper_surface (video (findMaxResolution pf s)) = helper_surface (video s)"
    "logicalPalette (video (findMaxResolution pf s)) = logicalPalette (video s)"
    "currentPalette (video (findMaxResolution pf s)) = currentPalette (video s)"
    "surfaces (findMaxResolution pf s) = surfaces s"
    by (simp_all add: findMaxResolution_def)
  show ?thesis
    by (rule readyI [where n = n and m = m and pal = pal and src = src and dst = dst])
       (use f(4) f(14) in \<open>simp_all add: v d f(1-3) f(5-13) f(15-18)\<close>)
qed

lemma init_ready:
  assumes ll: "256 \<le> length (logicalPalette (video s))"
    and lc: "256 \<le> length (deref_palette s (currentPalette (video s)))"
  shows "\<exists>s'. init pf width height fs s = Some (True, s') \<and> fakePalette (video s')
     \<and> (DEFAULT_SCREEN_WIDTH pf * DEFAULT_SCREEN_HEIGHT pf < 2 ^ 31 \<longrightarrow> ready s')
     \<and> currentPalette (video s') = currentPalette (video s)
     \<and> logicalPalette (video s') = logicalPalette (video s)
     \<and> mem s' = mem s"
proof -
  let ?s0 = "s\<lparr>video := (video s)\<lparr>fullscreen := fs\<rparr>\<rparr>"
  have d: "deref_palette ?s0 p = deref_palette s p" for p
    by (rule deref_palette_logical) simp_all
  have ll0: "256 \<le> length (logicalPalette (video ?s0))"
    using ll by simp
  have lc0: "256 \<le> length (deref_palette ?s0 (currentPalette (video ?s0)))"
    using lc by (simp add: d)
  from reset_ready [OF ll0 lc0, of pf width height] obtain s1 where
    s1: "reset pf width height ?s0 = Some (True, s1)" "fakePalette (video s1)"
      "DEFAULT_SCREEN_WIDTH pf * DEFAULT_SCREEN_HEIGHT pf < 2 ^ 31 \<longrightarrow> ready s1"
      "currentPalette (video s1) = currentPalette (video ?s0)"
      "logicalPalette (video s1) = logicalPalette (video ?s0)"
      "mem s1 = mem ?s0"
    by blast
  have i: "init pf width height fs s = Some (True, findMaxResolution pf s1)"
    by (simp add: init_def s1(1))
  have "fakePalette (video (findMaxResolution pf s1))"
    "currentPalette (video (findMaxResolution pf s1)) = currentPalette (video s)"
    "logicalPalette (video (findMaxResolution pf s1)) = logicalPalette (video s)"
    "mem (findMaxResolution pf s1) = mem s"
    using s1 by (simp_all add: findMaxResolution_def)
  moreover have "DEFAULT_SCREEN_WIDTH pf * DEFAULT_SCREEN_HEIGHT pf < 2 ^ 31 \<longrightarrow>
      ready (findMaxResolution pf s1)"
    using s1(3) by (auto intro: ready_findMaxResolution)
  ultimately show ?thesis
    using i by blast
qed

lemma ready_current:
  "ready s \<Longrightarrow> 256 \<le> length (deref_palette s (getPalette s))"
  unfolding getPalette_def by (erule readyE)

lemma example_effect_length:
  "256 \<le> length xs \<Longrightarrow> length (example_effect (take 256 xs) direct mspf stopped) = 256"
  by (simp add: example_effect_def)

lemma example_run:
  "\<exists>s1 s'. init example_platform 320 200 False (Video_Video example_world) = Some (True, s1)
     \<and> run example_platform [Flip 16 (Some example_effect) False] s1 = Some s'
     \<and> run example_platform [Init 320 200 False, Flip 16 (Some example_effect) False]
           (Video_Video example_world) = Some s'"
proof -
  let ?s0 = "Video_Video example_world"
  have ll: "256 \<le> length (logicalPalette (video ?s0))"
    by (simp add: Video_Video_length example_world_def)
  have "currentPalette (video ?s0) = LogicalPalette"
    by (simp add: Video_Video_def)
  then have lc: "256 \<le> length (deref_palette ?s0 (currentPalette (video ?s0)))"
    using ll by (simp add: deref_palette_def)
  have sz: "DEFAULT_SCREEN_WIDTH example_platform * DEFAULT_SCREEN_HEIGHT example_platform
      < 2 ^ 31"
    by (simp add: example_platform_def)
  from init_ready [OF ll lc, of example_platform 320 200 False] sz obtain s1 where
    s1: "init example_platform 320 200 False ?s0 = Some (True, s1)"
      "fakePalette (video s1)" "ready s1"
    by blast
  have len: "length (example_effect (take 256 (deref_palette s1 (getPalette s1))) False 16 False)
      = 256"
    by (rule example_effect_length [OF ready_current [OF s1(3)]])
  from flip_effects_ready [where pe = example_effect and mspf = 16 and stopped = False,
      OF s1(3) s1(2) len]
  obtain s' where s': "flip 16 (Some example_effect) False s1 = Some s'"
    by blast
  have "run example_platform [Flip 16 (Some example_effect) False] s1 = Some s'"
    by (simp add: s')
  moreover have "run example_platform [Init 320 200 False, Flip 16 (Some example_effect) False]
           ?s0 = Some s'"
    by (simp add: s1(1) s')
  ultimately show ?thesis
    using s1(1) by blast
qed

text \<open>
  Claim C5. If the storage of the logical palette has its 256 entries, then after
  construction entry \<open>i\<close> has red, green and blue equal to \<open>i\<close> for every
  \<open>i < 256\<close>, the current palette is the logical palette, and whatever sequence of
  video operations runs afterwards, the logical palette at its end is the one the
  constructor made.
\<close>

theorem logicalPalette_identity:
  assumes "length (logicalPalette (video s0)) = 256"
  shows "(\<forall>i<256. unat (r (logicalPalette (video (Video_Video s0)) ! i)) = i
            \<and> unat (g (logicalPalette (video (Video_Video s0)) ! i)) = i
            \<and> unat (b (logicalPalette (video (Video_Video s0)) ! i)) = i)
     \<and> length (logicalPalette (video (Video_Video s0))) = 256
     \<and> getPalette (Video_Video s0) = LogicalPalette
     \<and> deref_palette (Video_Video s0) (getPalette (Video_Video s0))
         = logicalPalette (video (Video_Video s0))
     \<and> (\<forall>pf xs s'. run pf xs (Video_Video s0) = Some s' \<longrightarrow>
           logicalPalette (video s') = logicalPalette (video (Video_Video s0)))"
proof (intro conjI allI impI)
  fix i :: nat assume i: "i < 256"
  note e = Video_Video_logical [OF i assms]
  show "unat (r (logicalPalette (video (Video_Video s0)) ! i)) = i"
    "unat (g (logicalPalette (video (Video_Video s0)) ! i)) = i"
    "unat (b (logicalPalette (video (Video_Video s0)) ! i)) = i"
    by (simp_all add: e unat_of_nat_byte [OF i])
next
  show "length (logicalPalette (video (Video_Video s0))) = 256"
    by (simp add: Video_Video_length assms)
  show g: "getPalette (Video_Video s0) = LogicalPalette"
    by (simp add: getPalette_def Video_Video_def)
  show "deref_palette (Video_Video s0) (getPalette (Video_Video s0))
         = logicalPalette (video (Video_Video s0))"
    by (simp add: g deref_palette_def)
next
  fix pf xs s' assume "run pf xs (Video_Video s0) = Some s'"
  from run_frame [OF this]
  show "logicalPalette (video s') = logicalPalette (video (Video_Video s0))"
    by simp
qed

theorem logicalPalette_identity_witness:
  "length (logicalPalette (video example_world)) = 256
   \<and> unat (r (logicalPalette (video (Video_Video example_world)) ! 200)) = 200
   \<and> unat (b (logicalPalette (video (Video_Video example_world)) ! 255)) = 255
   \<and> getPalette (Video_Video example_world) = LogicalPalette
   \<and> (\<exists>s'. run example_platform [Init 320 200 False, Flip 16 (Some example_effect) False]
           (Video_Video example_world) = Some s'
         \<and> logicalPalette (video s') = logicalPalette (video (Video_Video example_world)))"
proof -
  have h: "length (logicalPalette (video example_world)) = 256"
    by (simp add: example_world_def)
  note t = logicalPalette_identity [OF h]
  from example_run obtain s' where
    s': "run example_platform [Init 320 200 False, Flip 16 (Some example_effect) False]
           (Video_Video example_world) = Some s'"
    by blast
  with t have "logicalPalette (video s') = logicalPalette (video (Video_Video example_world))"
    by blast
  moreover from t have "unat (r (logicalPalette (video (Video_Video example_world)) ! 200)) = 200"
    "unat (b (logicalPalette (video (Video_Video example_world)) ! 255)) = 255"
    "getPalette (Video_Video example_world) = LogicalPalette"
    by simp_all
  ultimately show ?thesis
    using h s' by blast
qed

text \<open>
  Claim C9. A \<open>reset\<close> that returns has returned true and left \<open>fakePalette\<close> true;
  so has an \<open>init\<close> that returns, and so has an \<open>update\<close> for Alt + Return. After an
  \<open>init\<close>, whatever sequence of video operations runs, \<open>fakePalette\<close> is true at its
  end and no effect chain has been applied in direct mode since before the \<open>init\<close>.
  And \<open>reset\<close> and \<open>init\<close> do return when the logical and the current palette have
  their 256 entries.
\<close>

theorem fakePalette_always_true:
  "(reset pf width height s = Some (okr, sr) \<longrightarrow> okr \<and> fakePalette (video sr))
   \<and> (init pf width height fs s = Some (ok, s1) \<longrightarrow> ok \<and> fakePalette (video s1))
   \<and> (is_KEYDOWN event \<and> sym_is_RETURN event \<and> mod_has_ALT event
        \<and> update pf event s = Some su \<longrightarrow> fakePalette (video su))
   \<and> (init pf width height fs s = Some (ok, s1) \<and> run pf xs s1 = Some s' \<longrightarrow>
        fakePalette (video s') \<and> direct_calls s' = direct_calls s)
   \<and> (256 \<le> length (logicalPalette (video s))
        \<and> 256 \<le> length (deref_palette s (currentPalette (video s))) \<longrightarrow>
        (\<exists>t. reset pf width height s = Some (True, t))
        \<and> (\<exists>t. init pf width height fs s = Some (True, t)))"
proof (intro conjI impI)
  assume "reset pf width height s = Some (okr, sr)"
  from reset_frame [OF this] show "okr" "fakePalette (video sr)"
    by simp_all
next
  assume i: "init pf width height fs s = Some (ok, s1)"
  then have "step pf (Init width height fs) s = Some s1"
    by simp
  from i obtain ok' s0 where
    r: "reset pf width height (s\<lparr>video := (video s)\<lparr>fullscreen := fs\<rparr>\<rparr>) = Some (ok', s0)"
    and e: "\<not> ok' \<and> ok = False \<and> s1 = s0 \<or> ok' \<and> ok = True \<and> s1 = findMaxResolution pf s0"
    by (auto simp: init_def bind_eq_Some_conv split: if_splits)
  from reset_frame [OF r] e show "ok" "fakePalette (video s1)"
    by (auto simp: findMaxResolution_def)
next
  assume "is_KEYDOWN event \<and> sym_is_RETURN event \<and> mod_has_ALT event
        \<and> update pf event s = Some su"
  then obtain ok' s2 where
    r: "reset pf (screenW (video s)) (screenH (video s))
            (s\<lparr>video := (video s)\<lparr>fullscreen := \<not> fullscreen (video s)\<rparr>\<rparr>) = Some (ok', s2)"
    and su: "su = findMaxResolution pf s2"
    by (auto simp: update_def Let_def bind_eq_Some_conv)
  from reset_frame [OF r] show "fakePalette (video su)"
    by (simp add: su findMaxResolution_def)
next
  assume a: "init pf width height fs s = Some (ok, s1) \<and> run pf xs s1 = Some s'"
  then obtain ok' s0 where
    r: "reset pf width height (s\<lparr>video := (video s)\<lparr>fullscreen := fs\<rparr>\<rparr>) = Some (ok', s0)"
    and e: "s1 = s0 \<or> s1 = findMaxResolution pf s0"
    by (auto simp: init_def bind_eq_Some_conv split: if_splits)
  from reset_frame [OF r] e have f1: "fakePalette (video s1)"
    and d1: "direct_calls s1 = direct_calls s"
    by (auto simp: findMaxResolution_def direct_calls_def)
  from a have "run pf xs s1 = Some s'" by simp
  from run_frame [OF this] f1 d1
  show "fakePalette (video s')" "direct_calls s' = direct_calls s"
    by simp_all
next
  assume a: "256 \<le> length (logicalPalette (video s))
        \<and> 256 \<le> length (deref_palette s (currentPalette (video s)))"
  then show "\<exists>t. reset pf width height s = Some (True, t)"
    using reset_ready [of s pf width height] by blast
  from a show "\<exists>t. init pf width height fs s = Some (True, t)"
    using init_ready [of s pf width height fs] by blast
qed

theorem fakePalette_always_true_witness:
  "256 \<le> length (logicalPalette (video (Video_Video example_world)))
   \<and> 256 \<le> length (deref_palette (Video_Video example_world)
              (currentPalette (video (Video_Video example_world))))
   \<and> (\<exists>t. reset example_platform 320 200 (Video_Video example_world) = Some (True, t)
         \<and> fakePalette (video t))
   \<and> (\<exists>s1 s'. init example_platform 320 200 False (Video_Video example_world) = Some (True, s1)
         \<and> run example_platform [Flip 16 (Some example_effect) False] s1 = Some s'
         \<and> fakePalette (video s')
         \<and> direct_calls s' = direct_calls (Video_Video example_world))
   \<and> (\<exists>su. update example_platform
               \<lparr>is_KEYDOWN = True, sym_is_RETURN = True, mod_has_ALT = True\<rparr>
               example_world = Some su
         \<and> fakePalette (video su))"
proof -
  let ?s0 = "Video_Video example_world"
  have ll: "256 \<le> length (logicalPalette (video ?s0))"
    by (simp add: Video_Video_length example_world_def)
  have "currentPalette (video ?s0) = LogicalPalette"
    by (simp add: Video_Video_def)
  then have lc: "256 \<le> length (deref_palette ?s0 (currentPalette (video ?s0)))"
    using ll by (simp add: deref_palette_def)
  note t = fakePalette_always_true [where pf = example_platform and width = 320
      and height = 200 and fs = False]
  from t [where s = ?s0] ll lc obtain sr where
    sr: "reset example_platform 320 200 ?s0 = Some (True, sr)"
    by blast
  with t [where s = ?s0 and okr = True and sr = sr] have fr: "fakePalette (video sr)"
    by blast
  from example_run obtain s1 s' where
    r: "init example_platform 320 200 False ?s0 = Some (True, s1)"
      "run example_platform [Flip 16 (Some example_effect) False] s1 = Some s'"
    by blast
  with t [where s = ?s0 and ok = True and ?s1.0 = s1 and s' = s'
      and xs = "[Flip 16 (Some example_effect) False]"]
  have fs: "fakePalette (video s')" "direct_calls s' = direct_calls ?s0"
    by blast+
  let ?ev = "\<lparr>is_KEYDOWN = True, sym_is_RETURN = True, mod_has_ALT = True\<rparr>"
  let ?e0 = "example_world\<lparr>video := (video example_world)
      \<lparr>fullscreen := \<not> fullscreen (video example_world)\<rparr>\<rparr>"
  have "256 \<le> length (logicalPalette (video ?e0))"
    "256 \<le> length (deref_palette ?e0 (currentPalette (video ?e0)))"
    by (simp_all add: example_world_def deref_palette_def)
  from reset_ready [OF this, of example_platform "screenW (video example_world)"
      "screenH (video example_world)"]
  obtain s2 where "reset example_platform (screenW (video example_world))
      (screenH (video example_world)) ?e0 = Some (True, s2)"
    by blast
  then have u: "update example_platform ?ev example_world
      = Some (findMaxResolution example_platform s2)"
    by (simp add: update_def Let_def)
  with fakePalette_always_true [where pf = example_platform and event = ?ev
      and s = example_world and su = "findMaxResolution example_platform s2"]
  have fu: "fakePalette (video (findMaxResolution example_platform s2))"
    by simp
  from ll lc sr fr r fs u fu show ?thesis
    by blast
qed

section \<open>Every state the operations reach has the display set up\<close>

lemma ready_facts:
  assumes "ready s"
  obtains n m pal src dst where
    "screen (video s) = Some n" "helper_surface (video s) = Some m" "n \<noteq> m"
    "n < length (surfaces s)" "m < length (surfaces s)"
    "palette (surfaces s ! n) = Some pal" "length pal = 256"
    "pixels (surfaces s ! n) = Indexed8 src" "framebuffer s = src"
    "pixels (surfaces s ! m) = Packed32 dst" "length dst = length src"
    "palette (surfaces s ! m) = None"
proof -
  from assms obtain n m pal src dst where f:
    "screen (video s) = Some n" "canvas (video s) = Some n"
    "helper_surface (video s) = Some m" "n \<noteq> m"
    "n < length (surfaces s)" "m < length (surfaces s)"
    "palette (surfaces s ! n) = Some pal" "pixels (surfaces s ! n) = Indexed8 src"
    "pixels (surfaces s ! m) = Packed32 dst" "palette (surfaces s ! m) = None"
    "length pal = 256"
    "0 \<le> w (surfaces s ! n)" "0 \<le> h (surfaces s ! n)"
    "w (surfaces s ! n) * h (surfaces s ! n) < 2 ^ 31"
    "length src = nat (w (surfaces s ! n) * h (surfaces s ! n))"
    "length dst = length src"
    "256 \<le> length (logicalPalette (video s))"
    "256 \<le> length (deref_palette s (currentPalette (video s)))"
    by (rule readyE)
  have "framebuffer s = src"
    using f by (simp add: framebuffer_ready)
  with f that show thesis by blast
qed

lemma ready_log: "ready s \<Longrightarrow> ready (log_call c s)"
proof -
  assume rd: "ready s"
  from rd obtain n m pal src dst where f:
    "screen (video s) = Some n" "helper_surface (video s) = Some m" "n \<noteq> m"
    "n < length (surfaces s)" "m < length (surfaces s)"
    "palette (surfaces s ! n) = Some pal" "length pal = 256"
    "pixels (surfaces s ! n) = Indexed8 src" "framebuffer s = src"
    "pixels (surfaces s ! m) = Packed32 dst" "length dst = length src"
    "palette (surfaces s ! m) = None"
    by (rule ready_facts)
  show ?thesis
    by (rule ready_surfaces [OF rd _ _ _ f(1,2), where pal' = pal and src' = src
          and dst' = dst]) (simp_all add: log_call_def f)
qed

lemma SDL_FillRect_ready:
  assumes rd: "ready s" and fr: "SDL_FillRect k color s = Some s'"
  shows "ready s'"
proof -
  from rd obtain n m pal src dst where f:
    "screen (video s) = Some n" "helper_surface (video s) = Some m" "n \<noteq> m"
    "n < length (surfaces s)" "m < length (surfaces s)"
    "palette (surfaces s ! n) = Some pal" "length pal = 256"
    "pixels (surfaces s ! n) = Indexed8 src" "framebuffer s = src"
    "pixels (surfaces s ! m) = Packed32 dst" "length dst = length src"
    "palette (surfaces s ! m) = None"
    by (rule ready_facts)
  from fr have d: "display_only s s'"
    by (rule SDL_FillRect_frame)
  then have dv: "video s' = video s" "mem s' = mem s" "length (surfaces s') = length (surfaces s)"
    by (simp_all add: display_only_def)
  from fr obtain j where j: "k = Some j" "j < length (surfaces s)"
    and sf: "surfaces s' = (surfaces s)[j := (surfaces s ! j)\<lparr>pixels :=
                         (case pixels (surfaces s ! j) of
                            Indexed8 ps \<Rightarrow> Indexed8 (replicate (length ps) (ucast color))
                          | Packed32 ps \<Rightarrow> Packed32 (replicate (length ps) color))\<rparr>]"
    by (auto simp: SDL_FillRect_def deref_surface_def log_call_def
        split: option.splits if_splits)
  consider "j = n" | "j = m" | "j \<noteq> n" "j \<noteq> m" by blast
  then show ?thesis
  proof cases
    case 1
    with f(3) show ?thesis
      by (intro ready_surfaces [OF rd dv f(1,2), where pal' = pal
            and src' = "replicate (length src) (ucast color)" and dst' = dst])
         (simp_all add: sf f(4-))
  next
    case 2
    with f(3) show ?thesis
      by (intro ready_surfaces [OF rd dv f(1,2), where pal' = pal
            and src' = src and dst' = "replicate (length dst) color"])
         (simp_all add: sf f(4-))
  next
    case 3
    then show ?thesis
      by (intro ready_surfaces [OF rd dv f(1,2), where pal' = pal
            and src' = src and dst' = dst])
         (simp_all add: sf f(4-))
  qed
qed

lemma show_frame_kept:
  assumes rd: "ready s" and sh: "show_frame s = Some s'"
  shows "ready s'"
proof -
  from rd obtain n m pal src dst where g:
    "screen (video s) = Some n" "canvas (video s) = Some n"
    "helper_surface (video s) = Some m" "n \<noteq> m"
    "n < length (surfaces s)" "m < length (surfaces s)"
    "palette (surfaces s ! n) = Some pal" "pixels (surfaces s ! n) = Indexed8 src"
    "pixels (surfaces s ! m) = Packed32 dst" "palette (surfaces s ! m) = None"
    "length pal = 256"
    "0 \<le> w (surfaces s ! n)" "0 \<le> h (surfaces s ! n)"
    "w (surfaces s ! n) * h (surfaces s ! n) < 2 ^ 31"
    "length src = nat (w (surfaces s ! n) * h (surfaces s ! n))"
    "length dst = length src"
    "256 \<le> length (logicalPalette (video s))"
    "256 \<le> length (deref_palette s (currentPalette (video s)))"
    by (rule readyE)
  have fb: "framebuffer s = src"
    using g by (simp add: framebuffer_ready)
  from sh show_frame_ready [OF g(1-16)] have
    s': "s' = s\<lparr>surfaces := (surfaces s)
               [m := (surfaces s ! m)
                  \<lparr>pixels := Packed32 (map (\<lambda>index. RGBColor (pal ! unat index)) src)\<rparr>],
             calls := calls s @ [SetPaletteColors m 0 256,
               RenderPresent (Texture (map (\<lambda>index. RGBColor (pal ! unat index)) src))]\<rparr>"
    by simp
  show ?thesis
    by (rule ready_surfaces [OF rd _ _ _ g(1) g(3), where pal' = pal and src' = src
          and dst' = "map (\<lambda>index. RGBColor (pal ! unat index)) src"])
       (use g(4) in \<open>simp_all add: s' g(5-) fb\<close>)
qed

lemma flip_kept:
  assumes rd: "ready s" and fl: "flip mspf paletteEffects stopped s = Some s'"
  shows "ready s'"
proof -
  from fl obtain s1 where s1: "show_frame s1 = Some s'"
    and d: "paletteEffects = None \<and> s1 = s
       \<or> (\<exists>colors c. set_surface_palette (screen (video s)) colors 0 256 (log_call c s) = Some s1)"
    by (auto simp: flip_def Let_def bind_eq_Some_conv apply_direct_def
        split: option.splits if_splits)
  from d have "ready s1"
  proof
    assume "paletteEffects = None \<and> s1 = s"
    with rd show ?thesis by simp
  next
    assume "\<exists>colors c. set_surface_palette (screen (video s)) colors 0 256 (log_call c s) = Some s1"
    then obtain colors c where
      "set_surface_palette (screen (video s)) colors 0 256 (log_call c s) = Some s1"
      by blast
    with ready_log [OF rd, of c] show ?thesis
      by (rule set_surface_palette_ready)
  qed
  then show ?thesis
    using s1 by (rule show_frame_kept)
qed

lemma expose_kept:
  assumes rd: "ready s" and ex: "expose s = Some s'"
  shows "ready s'"
proof -
  from ex obtain s1 where
    a: "set_surface_palette (screen (video s)) (logicalPalette (video s)) 0 256 s = Some s1"
    and b: "set_surface_palette (screen (video s1))
       (deref_palette s1 (currentPalette (video s1))) 0 256 s1 = Some s'"
    by (auto simp: expose_def bind_eq_Some_conv)
  from rd a have "ready s1" by (rule set_surface_palette_ready)
  then show ?thesis using b by (rule set_surface_palette_ready)
qed

lemma SDL_SetPaletteColors_needs:
  assumes "SDL_SetPaletteColors pal colors 0 256 = Some pal'" and "length pal = 256"
  shows "256 \<le> length colors"
  using assms by (auto simp: SDL_SetPaletteColors_def Let_def split: if_splits)

lemma setPalette_kept:
  assumes rd: "ready s" and sp: "setPalette pf p s = Some s'"
  shows "ready s'"
proof -
  from sp obtain index s1 s2 s3 where
    a: "clearScreen index s = Some s1"
    and b: "flip 0 None False s1 = Some s2"
    and c: "set_surface_palette (screen (video s2)) (deref_palette s2 p) 0 256 s2 = Some s3"
    by (auto simp: setPalette_def bind_eq_Some_conv split: if_splits)
  from rd a have r1: "ready s1"
    unfolding clearScreen_def by (rule SDL_FillRect_ready)
  from r1 b have r2: "ready s2" by (rule flip_kept)
  from a have "display_only s s1" by (rule clearScreen_frame)
  also from b have "display_only s1 s2"
    unfolding flip_no_effects by (rule show_frame_frame)
  finally have v2: "video s2 = video s" "mem s2 = mem s"
    by (simp_all add: display_only_def)
  from r2 obtain n m pal src dst where f:
    "screen (video s2) = Some n" "helper_surface (video s2) = Some m" "n \<noteq> m"
    "n < length (surfaces s2)" "m < length (surfaces s2)"
    "palette (surfaces s2 ! n) = Some pal" "length pal = 256"
    "pixels (surfaces s2 ! n) = Indexed8 src" "framebuffer s2 = src"
    "pixels (surfaces s2 ! m) = Packed32 dst" "length dst = length src"
    "palette (surfaces s2 ! m) = None"
    by (rule ready_facts)
  from c f obtain pal' where "SDL_SetPaletteColors pal (deref_palette s2 p) 0 256 = Some pal'"
    by (auto simp: set_surface_palette_def deref_surface_def split: option.splits)
  from SDL_SetPaletteColors_needs [OF this f(7)]
  have "256 \<le> length (deref_palette s p)"
    by (simp add: deref_palette_same [OF v2])
  from setPalette_ready [OF rd this, of pf] sp show ?thesis
    by auto
qed

text \<open>
  From the constructor on, whatever operations run, a state whose screen pointer is
  not null is one where the display is set up and the palette is emulated (provided
  the screen-size constants multiply to less than \<open>2 ^ 31\<close>, so that the pixel count
  fits an int). These are the states that the theorems about \<open>flip\<close>, \<open>setPalette\<close>
  and \<open>changePalette\<close> are stated for; with a null screen pointer those operations
  dereference it.
\<close>

lemma step_kept:
  assumes sz: "DEFAULT_SCREEN_WIDTH pf * DEFAULT_SCREEN_HEIGHT pf < 2 ^ 31"
    and ll: "256 \<le> length (logicalPalette (video s))"
    and lc: "256 \<le> length (deref_palette s (currentPalette (video s)))"
    and inv: "screen (video s) = None \<or> ready s \<and> fakePalette (video s)"
    and st: "step pf x s = Some s'"
  shows "256 \<le> length (logicalPalette (video s'))
    \<and> 256 \<le> length (deref_palette s' (currentPalette (video s')))
    \<and> (screen (video s') = None \<or> ready s' \<and> fakePalette (video s'))"
proof -
  have same: "256 \<le> length (logicalPalette (video s'))
    \<and> 256 \<le> length (deref_palette s' (currentPalette (video s')))
    \<and> (screen (video s') = None \<or> ready s' \<and> fakePalette (video s'))"
    if d: "display_only s s'" and k: "ready s \<Longrightarrow> ready s'"
  proof -
    from d have v: "video s' = video s" "mem s' = mem s"
      by (simp_all add: display_only_def)
    from ll lc inv k show ?thesis
      by (auto simp: v deref_palette_same [OF v])
  qed
  have fresh: "256 \<le> length (logicalPalette (video t'))
    \<and> 256 \<le> length (deref_palette t' (currentPalette (video t')))
    \<and> (screen (video t') = None \<or> ready t' \<and> fakePalette (video t'))"
    if r: "reset pf width height t = Some (ok, t0)"
      and t: "logicalPalette (video t) = logicalPalette (video s)"
        "currentPalette (video t) = currentPalette (video s)" "mem t = mem s"
      and t': "t' = t0 \<or> t' = findMaxResolution pf t0"
    for width height t ok t0 t'
  proof -
    have dt: "deref_palette t q = deref_palette s q" for q
      by (rule deref_palette_logical [OF t(1,3)])
    have llt: "256 \<le> length (logicalPalette (video t))"
      using ll by (simp add: t)
    have lct: "256 \<le> length (deref_palette t (currentPalette (video t)))"
      using lc by (simp add: t dt)
    from reset_ready [OF llt lct, of pf width height] r sz have
      p: "fakePalette (video t0)" "ready t0"
        "currentPalette (video t0) = currentPalette (video t)"
        "logicalPalette (video t0) = logicalPalette (video t)" "mem t0 = mem t"
      by auto
    have d0: "deref_palette t0 q = deref_palette t q" for q
      by (rule deref_palette_logical [OF p(4,5)])
    have a: "256 \<le> length (logicalPalette (video t0))
      \<and> 256 \<le> length (deref_palette t0 (currentPalette (video t0)))
      \<and> ready t0 \<and> fakePalette (video t0)"
      using llt lct p by (simp add: d0)
    from t' show ?thesis
    proof
      assume "t' = t0"
      with a show ?thesis by simp
    next
      assume e: "t' = findMaxResolution pf t0"
      have df: "deref_palette (findMaxResolution pf t0) q = deref_palette t0 q" for q
        by (rule deref_palette_logical) (simp_all add: findMaxResolution_def)
      have "logicalPalette (video (findMaxResolution pf t0)) = logicalPalette (video t0)"
        "currentPalette (video (findMaxResolution pf t0)) = currentPalette (video t0)"
        "fakePalette (video (findMaxResolution pf t0)) = fakePalette (video t0)"
        by (simp_all add: findMaxResolution_def)
      with a ready_findMaxResolution [of t0 pf] show ?thesis
        by (simp add: e df)
    qed
  qed
  show ?thesis
  proof (cases x)
    case (Init width height fs)
    with st obtain ok t0 where
      r: "reset pf width height (s\<lparr>video := (video s)\<lparr>fullscreen := fs\<rparr>\<rparr>) = Some (ok, t0)"
      and e: "s' = t0 \<or> s' = findMaxResolution pf t0"
      by (auto simp: init_def bind_eq_Some_conv split: if_splits)
    show ?thesis
      by (rule fresh [OF r _ _ _ e]) simp_all
  next
    case (Reset width height)
    with st obtain ok where r: "reset pf width height s = Some (ok, s')"
      by auto
    show ?thesis
      by (rule fresh [OF r]) simp_all
  next
    case (SetPalette p)
    with st have sp: "setPalette pf p s = Some s'" by simp
    from sp have "screen (video s) \<noteq> None"
      by (auto simp: setPalette_def deref_surface_def bind_eq_Some_conv split: option.splits)
    with inv have rd: "ready s" and fk: "fakePalette (video s)" by simp_all
    from rd sp have rd': "ready s'" by (rule setPalette_kept)
    from setPalette_frame [OF sp] have v: "video s' = (video s)\<lparr>currentPalette := p\<rparr>"
      by simp
    from rd' have "256 \<le> length (logicalPalette (video s'))"
      "256 \<le> length (deref_palette s' (currentPalette (video s')))"
      by (auto elim: readyE)
    with rd' fk show ?thesis by (simp add: v)
  next
    case (ChangePalette p first amount)
    with st have c: "changePalette p first amount s = Some s'" by simp
    show ?thesis
      by (rule same [OF changePalette_frame [OF c]])
         (use c in \<open>auto simp: changePalette_def intro: set_surface_palette_ready\<close>)
  next
    case (RestoreSurfacePalette surface)
    with st have c: "restoreSurfacePalette surface s = Some s'" by simp
    show ?thesis
      by (rule same [OF restoreSurfacePalette_frame [OF c]])
         (use c in \<open>auto simp: restoreSurfacePalette_def intro: set_surface_palette_ready\<close>)
  next
    case Expose
    with st have c: "expose s = Some s'" by simp
    show ?thesis
      by (rule same [OF expose_frame [OF c]]) (use c in \<open>auto intro: expose_kept\<close>)
  next
    case (Update event)
    show ?thesis
    proof (cases "is_KEYDOWN event \<and> sym_is_RETURN event \<and> mod_has_ALT event")
      case True
      with st Update obtain ok t0 where
        r: "reset pf (screenW (video s)) (screenH (video s))
              (s\<lparr>video := (video s)\<lparr>fullscreen := \<not> fullscreen (video s)\<rparr>\<rparr>) = Some (ok, t0)"
        and e: "s' = findMaxResolution pf t0"
        by (auto simp: update_def Let_def bind_eq_Some_conv)
      show ?thesis
        by (rule fresh [OF r]) (simp_all add: e)
    next
      case False
      with st Update have "s' = s" by (auto simp: update_def)
      with ll lc inv show ?thesis by simp
    qed
  next
    case (Flip mspf paletteEffects stopped)
    with st have f: "flip mspf paletteEffects stopped s = Some s'" by simp
    from f have "screen (video s) \<noteq> None"
      by (auto simp: flip_def show_frame_def set_surface_palette_def apply_direct_def
          deref_surface_def log_call_def Let_def bind_eq_Some_conv
          split: option.splits if_splits)
    with inv have rd: "ready s" and fk: "fakePalette (video s)" by simp_all
    show ?thesis
      by (rule same [OF flip_frame [OF f fk]]) (use f in \<open>auto intro: flip_kept\<close>)
  next
    case (ClearScreen index)
    with st have c: "clearScreen index s = Some s'" by simp
    show ?thesis
      by (rule same [OF clearScreen_frame [OF c]])
         (use c in \<open>auto simp: clearScreen_def intro: SDL_FillRect_ready\<close>)
  next
    case FindMaxResolution
    with st have e: "s' = findMaxResolution pf s" by simp
    have df: "deref_palette (findMaxResolution pf s) q = deref_palette s q" for q
      by (rule deref_palette_logical) (simp_all add: findMaxResolution_def)
    have "logicalPalette (video (findMaxResolution pf s)) = logicalPalette (video s)"
      "currentPalette (video (findMaxResolution pf s)) = currentPalette (video s)"
      "fakePalette (video (findMaxResolution pf s)) = fakePalette (video s)"
      "screen (video (findMaxResolution pf s)) = screen (video s)"
      by (simp_all add: findMaxResolution_def)
    with ll lc inv ready_findMaxResolution [of s pf] show ?thesis
      by (auto simp: e df)
  qed
qed

lemma run_kept:
  assumes sz: "DEFAULT_SCREEN_WIDTH pf * DEFAULT_SCREEN_HEIGHT pf < 2 ^ 31"
  shows "256 \<le> length (logicalPalette (video s)) \<Longrightarrow>
    256 \<le> length (deref_palette s (currentPalette (video s))) \<Longrightarrow>
    screen (video s) = None \<or> ready s \<and> fakePalette (video s) \<Longrightarrow>
    run pf xs s = Some s' \<Longrightarrow>
    screen (video s') = None \<or> ready s' \<and> fakePalette (video s')"
proof (induction xs arbitrary: s)
  case Nil
  then show ?case by simp
next
  case (Cons x xs)
  from Cons.prems(4) obtain s1 where a: "step pf x s = Some s1" and b: "run pf xs s1 = Some s'"
    by (auto split: option.splits)
  from step_kept [OF sz Cons.prems(1-3) a] have
    "256 \<le> length (logicalPalette (video s1))"
    "256 \<le> length (deref_palette s1 (currentPalette (video s1)))"
    "screen (video s1) = None \<or> ready s1 \<and> fakePalette (video s1)"
    by simp_all
  then show ?case
    using b by (rule Cons.IH)
qed

lemma reachable_ready:
  assumes "DEFAULT_SCREEN_WIDTH pf * DEFAULT_SCREEN_HEIGHT pf < 2 ^ 31"
    and "length (logicalPalette (video s0)) = 256"
    and "run pf xs (Video_Video s0) = Some s"
    and "screen (video s) \<noteq> None"
  shows "ready s \<and> fakePalette (video s)"
proof -
  have ll: "256 \<le> length (logicalPalette (video (Video_Video s0)))"
    by (simp add: Video_Video_length assms(2))
  have c: "currentPalette (video (Video_Video s0)) = LogicalPalette"
    "screen (video (Video_Video s0)) = None"
    by (simp_all add: Video_Video_def)
  have lc: "256 \<le> length (deref_palette (Video_Video s0)
      (currentPalette (video (Video_Video s0))))"
    using ll by (simp add: c deref_palette_def)
  from run_kept [OF assms(1) ll lc _ assms(3)] c(2) assms(4) show ?thesis
    by simp
qed

section \<open>Properties of the file reader\<close>

subsection \<open>Seeking\<close>

text \<open>
  Claim C8. On a stream of length \<open>L\<close>, seeking from the start to \<open>-1\<close> and to \<open>L + 1\<close>
  fails with \<open>OutOfRange\<close>; seeking from the start to \<open>0\<close> succeeds and the position
  is then \<open>0\<close>; and a seek, absolute or relative, fails with \<open>OutOfRange\<close> exactly when
  its target is negative or beyond the stream end, and otherwise moves the cursor to
  the target.
\<close>

theorem seek_bounds:
  "seek (- 1) True st = Inl OutOfRange
   \<and> seek (int (length (buffer st)) + 1) True st = Inl OutOfRange
   \<and> seek 0 True st = Inr (st\<lparr>offset := 0\<rparr>)
   \<and> tell (st\<lparr>offset := 0\<rparr>) = 0
   \<and> (seek off fromStart st = Inl OutOfRange) =
       ((if fromStart then off else tell st + off) < 0
        \<or> int (length (buffer st)) < (if fromStart then off else tell st + off))
   \<and> (seek off fromStart st =
          Inr (st\<lparr>offset := nat (if fromStart then off else tell st + off)\<rparr>)) =
       (0 \<le> (if fromStart then off else tell st + off)
        \<and> (if fromStart then off else tell st + off) \<le> int (length (buffer st)))"
  by (simp add: seek_def tell_def Let_def)

subsection \<open>Run-length decoding\<close>

declare rle_decode.simps [simp del]

lemma rle_decode_stop:
  "int (length out) = N \<Longrightarrow> rle_decode N inp out = Inr (out, inp)"
  by (simp add: rle_decode.simps [of N inp out])

lemma rle_decode_underrun:
  "int (length out) \<noteq> N \<Longrightarrow> rle_decode N [] out = Inl DecodeUnderrun"
  by (simp add: rle_decode.simps [of N "[]" out])

lemma rle_decode_overrun:
  "int (length out) \<noteq> N \<Longrightarrow> N < int (length out + (unat (c AND 127) + 1)) \<Longrightarrow>
   rle_decode N (c # rest) out = Inl DecodeOverrun"
  by (subst rle_decode.simps) (auto simp: Let_def)

lemma rle_decode_literal:
  assumes "\<not> N < int (length out + (unat (c AND 127) + 1))" and "c AND 128 \<noteq> 0"
  shows "rle_decode N (c # rest) out =
     (if length rest < unat (c AND 127) + 1 then Inl DecodeOverrun
      else rle_decode N (drop (unat (c AND 127) + 1) rest)
             (out @ take (unat (c AND 127) + 1) rest))"
proof -
  from assms(1) have neq: "int (length out) \<noteq> N" by linarith
  show ?thesis
    by (subst rle_decode.simps) (simp only: neq assms if_False if_True list.case Let_def not_False_eq_True)
qed

lemma rle_decode_repeat:
  assumes "\<not> N < int (length out + (unat (c AND 127) + 1))" and "c AND 128 = 0"
  shows "rle_decode N (c # rest) out =
     (case rest of [] \<Rightarrow> Inl DecodeOverrun
      | v # rest' \<Rightarrow> rle_decode N rest' (out @ replicate (unat (c AND 127) + 1) v))"
proof -
  from assms(1) have neq: "int (length out) \<noteq> N" by linarith
  show ?thesis
    by (subst rle_decode.simps) (simp only: neq assms if_False if_True list.case Let_def not_False_eq_True simp_thms)
qed

lemma rle_decode_length:
  "rle_decode N inp out = Inr (res, rest) \<Longrightarrow> int (length res) = N"
proof (induction N inp out rule: rle_decode.induct)
  case (1 N inp out)
  show ?case
  proof (cases "int (length out) = N")
    case True
    with "1.prems" show ?thesis by (simp add: rle_decode_stop)
  next
    case neq: False
    show ?thesis
    proof (cases inp)
      case Nil
      with neq "1.prems" show ?thesis by (simp add: rle_decode_underrun)
    next
      case (Cons c rest')
      let ?n = "unat (c AND 127) + 1"
      show ?thesis
      proof (cases "N < int (length out + ?n)")
        case True
        with neq Cons "1.prems" show ?thesis
          by (simp add: rle_decode_overrun)
      next
        case fits: False
        show ?thesis
        proof (cases "c AND 128 \<noteq> 0")
          case lit: True
          show ?thesis
          proof (cases "length rest' < ?n")
            case True
            with rle_decode_literal [OF fits lit, of rest'] Cons "1.prems"
            show ?thesis by simp
          next
            case enough: False
            with rle_decode_literal [OF fits lit, of rest'] Cons "1.prems"
            have "rle_decode N (drop ?n rest') (out @ take ?n rest') = Inr (res, rest)"
              by simp
            with "1.IH"(1) [OF neq Cons refl fits lit enough] show ?thesis .
          qed
        next
          case rep: False
          show ?thesis
          proof (cases rest')
            case Nil
            with rle_decode_repeat [OF fits, of rest'] rep Cons "1.prems"
            show ?thesis by simp
          next
            case (Cons v rest'')
            with rle_decode_repeat [OF fits, of rest'] rep \<open>inp = c # rest'\<close> "1.prems"
            have "rle_decode N rest'' (out @ replicate ?n v) = Inr (res, rest)"
              by simp
            with "1.IH"(2) [OF neq \<open>inp = c # rest'\<close> refl fits rep Cons] show ?thesis .
          qed
        qed
      qed
    qed
  qed
qed


text \<open>
  Claim C6. The decoder stops as soon as the output has the declared length \<open>N\<close>. Before
  that, a control byte with the high bit set copies its low 7 bits + 1 bytes verbatim
  from the stream, and a control byte without it writes its low 7 bits + 1 copies of
  the byte that follows; a control byte whose run would take the output beyond \<open>N\<close>
  fails with \<open>DecodeOverrun\<close>; and a load that succeeds returns exactly \<open>N\<close> bytes.
\<close>

theorem loadRLE_exact_length:
  "(int (length outs) = Ns \<longrightarrow> rle_decode Ns inps outs = Inr (outs, inps))
   \<and> (\<not> Nl < int (length outl + (unat (cl AND 127) + 1)) \<and> cl AND 128 \<noteq> 0
        \<and> unat (cl AND 127) + 1 \<le> length restl \<longrightarrow>
      rle_decode Nl (cl # restl) outl =
        rle_decode Nl (drop (unat (cl AND 127) + 1) restl)
          (outl @ take (unat (cl AND 127) + 1) restl))
   \<and> (\<not> Nr < int (length outr + (unat (cr AND 127) + 1)) \<and> cr AND 128 = 0 \<longrightarrow>
      rle_decode Nr (cr # vr # restr) outr =
        rle_decode Nr restr (outr @ replicate (unat (cr AND 127) + 1) vr))
   \<and> (int (length outo) \<noteq> No \<and> No < int (length outo + (unat (co AND 127) + 1)) \<longrightarrow>
      rle_decode No (co # resto) outo = Inl DecodeOverrun)
   \<and> (loadRLE N st = Inr (res, st') \<longrightarrow> int (length res) = N)"
proof (intro conjI impI)
  assume "int (length outs) = Ns"
  then show "rle_decode Ns inps outs = Inr (outs, inps)"
    by (rule rle_decode_stop)
next
  assume h: "\<not> Nl < int (length outl + (unat (cl AND 127) + 1)) \<and> cl AND 128 \<noteq> 0
    \<and> unat (cl AND 127) + 1 \<le> length restl"
  then show "rle_decode Nl (cl # restl) outl =
        rle_decode Nl (drop (unat (cl AND 127) + 1) restl)
          (outl @ take (unat (cl AND 127) + 1) restl)"
    using rle_decode_literal [of Nl outl cl restl] by simp
next
  assume h: "\<not> Nr < int (length outr + (unat (cr AND 127) + 1)) \<and> cr AND 128 = 0"
  then show "rle_decode Nr (cr # vr # restr) outr =
        rle_decode Nr restr (outr @ replicate (unat (cr AND 127) + 1) vr)"
    using rle_decode_repeat [of Nr outr cr "vr # restr"] by simp
next
  assume "int (length outo) \<noteq> No \<and> No < int (length outo + (unat (co AND 127) + 1))"
  then show "rle_decode No (co # resto) outo = Inl DecodeOverrun"
    using rle_decode_overrun [of outo No co resto] by simp
next
  assume "loadRLE N st = Inr (res, st')"
  then obtain rest where "rle_decode N (drop (offset st) (buffer st)) [] = Inr (res, rest)"
    by (auto simp: loadRLE_def split: sum.splits)
  then show "int (length res) = N"
    by (rule rle_decode_length)
qed

theorem loadRLE_exact_length_witness:
  "rle_decode 0 [1] [] = Inr ([], [1])
   \<and> rle_decode 5 [0x81, 1, 2, 2, 9] [] = rle_decode 5 [2, 9] [1, 2]
   \<and> rle_decode 5 [2, 9] [1, 2] = rle_decode 5 [] [1, 2, 9, 9, 9]
   \<and> rle_decode 5 [3, 9] [1, 2] = Inl DecodeOverrun
   \<and> loadRLE 5 \<lparr>buffer = [0x81, 1, 2, 2, 9], offset = 0\<rparr>
       = Inr ([1, 2, 9, 9, 9], \<lparr>buffer = [0x81, 1, 2, 2, 9], offset = 5\<rparr>)
   \<and> int (length [1, 2, 9, 9, 9 :: 8 word]) = 5"
proof -
  have e: "loadRLE 5 \<lparr>buffer = [0x81, 1, 2, 2, 9], offset = 0\<rparr>
       = Inr ([1, 2, 9, 9, 9], \<lparr>buffer = [0x81, 1, 2, 2, 9], offset = 5\<rparr>)"
    by code_simp
  have hl: "\<not> 5 < int (length ([] :: 8 word list) + (unat ((0x81 :: 8 word) AND 127) + 1))
      \<and> (0x81 :: 8 word) AND 128 \<noteq> 0
      \<and> unat ((0x81 :: 8 word) AND 127) + 1 \<le> length [1, 2, 2, 9 :: 8 word]"
    by simp
  have dl: "drop (unat ((0x81 :: 8 word) AND 127) + 1) [1, 2, 2, 9 :: 8 word] = [2, 9]"
    "[] @ take (unat ((0x81 :: 8 word) AND 127) + 1) [1, 2, 2, 9 :: 8 word] = [1, 2]"
    by simp_all
  have hr: "\<not> 5 < int (length [1, 2 :: 8 word] + (unat ((2 :: 8 word) AND 127) + 1))
      \<and> (2 :: 8 word) AND 128 = 0"
    by simp
  have dr: "[1, 2] @ replicate (unat ((2 :: 8 word) AND 127) + 1) (9 :: 8 word) = [1, 2, 9, 9, 9]"
    by (simp add: numeral_3_eq_3)
  have ho: "int (length [1, 2 :: 8 word]) \<noteq> 5
      \<and> 5 < int (length [1, 2 :: 8 word] + (unat ((3 :: 8 word) AND 127) + 1))"
    by simp
  note t = loadRLE_exact_length [where outs = "[]" and Ns = 0 and inps = "[1]"
        and Nl = 5 and outl = "[]" and cl = "0x81" and restl = "[1, 2, 2, 9]"
        and Nr = 5 and outr = "[1, 2]" and cr = 2 and vr = 9 and restr = "[]"
        and No = 5 and outo = "[1, 2]" and co = 3 and resto = "[9]"
        and N = 5 and st = "\<lparr>buffer = [0x81, 1, 2, 2, 9], offset = 0\<rparr>"
        and res = "[1, 2, 9, 9, 9]" and st' = "\<lparr>buffer = [0x81, 1, 2, 2, 9], offset = 5\<rparr>"]
  from t have "rle_decode 0 [1] [] = Inr ([], [1])" by simp
  moreover from t hl dl have "rle_decode 5 [0x81, 1, 2, 2, 9] [] = rle_decode 5 [2, 9] [1, 2]"
    by metis
  moreover from t hr dr have "rle_decode 5 [2, 9] [1, 2] = rle_decode 5 [] [1, 2, 9, 9, 9]"
    by metis
  moreover from t ho have "rle_decode 5 [3, 9] [1, 2] = Inl DecodeOverrun"
    by metis
  moreover from t e have "int (length [1, 2, 9, 9, 9 :: 8 word]) = 5"
    by metis
  ultimately show ?thesis using e by blast
qed

subsection \<open>Back-references of the LZ decoder\<close>

lemma copy_back_ok:
  "0 < d \<Longrightarrow> d \<le> length out \<Longrightarrow>
   \<exists>res. copy_back d n out = Inr res \<and> length res = length out + n
     \<and> take (length out) res = out
     \<and> (\<forall>i<n. res ! (length out + i) = res ! (length out + i - d))"
proof (induction n arbitrary: out)
  case 0
  then show ?case by simp
next
  case (Suc n)
  let ?out = "out @ [out ! (length out - d)]"
  from Suc.prems have "d \<le> length ?out" by simp
  with Suc.IH [of ?out] Suc.prems(1) obtain res where
    res: "copy_back d n ?out = Inr res" "length res = length ?out + n"
      "take (length ?out) res = ?out"
      "\<forall>i<n. res ! (length ?out + i) = res ! (length ?out + i - d)"
    by blast
  have "take (length out) (take (length ?out) res) = take (length out) ?out"
    using res(3) by simp
  then have t: "take (length out) res = out"
    by (simp add: min_def)
  have "take (length ?out) res ! length out = ?out ! length out"
    using res(3) by simp
  then have n0: "res ! length out = out ! (length out - d)"
    by simp
  have "take (length out) res ! (length out - d) = out ! (length out - d)"
    using t by simp
  moreover have "length out - d < length out"
    using Suc.prems by simp
  ultimately have n1: "res ! (length out - d) = out ! (length out - d)"
    by simp
  have "\<forall>i<Suc n. res ! (length out + i) = res ! (length out + i - d)"
  proof (intro allI impI)
    fix i assume "i < Suc n"
    show "res ! (length out + i) = res ! (length out + i - d)"
    proof (cases i)
      case 0
      then show ?thesis using n0 n1 by simp
    next
      case (Suc j)
      with \<open>i < Suc n\<close> res(4) have "res ! (length ?out + j) = res ! (length ?out + j - d)" by simp
      then show ?thesis using Suc by simp
    qed
  qed
  with res t Suc.prems show ?case by simp
qed


text \<open>
  Claim C7. A literal \<open>AB\<close> followed by a back-reference of distance 1 and length 5
  decodes to the byte \<open>AB\<close> and five more copies of it. In general a back-reference of
  \<open>(d, n)\<close> that stays inside the output appends \<open>n\<close> bytes to it, each equal to the
  byte \<open>d\<close> positions before it in the result, whether or not that byte was itself
  written by this back-reference.
\<close>

theorem loadLZ_overlap:
  "loadLZ [Literal 0xAB, BackReference 1 5] 6
     = Inr [0xAB, 0xAB, 0xAB, 0xAB, 0xAB, 0xAB]
   \<and> (0 < d \<and> d \<le> length out \<longrightarrow>
        (\<exists>res. copy_back d n out = Inr res
           \<and> lz_decode (BackReference d n # ts) out = lz_decode ts res
           \<and> length res = length out + n
           \<and> take (length out) res = out
           \<and> (\<forall>i<n. res ! (length out + i) = res ! (length out + i - d))))"
proof (intro conjI impI)
  show "loadLZ [Literal 0xAB, BackReference 1 5] 6
     = Inr [0xAB, 0xAB, 0xAB, 0xAB, 0xAB, 0xAB]"
    by (simp add: loadLZ_def eval_nat_numeral)
next
  assume "0 < d \<and> d \<le> length out"
  then obtain res where res: "copy_back d n out = Inr res"
    "length res = length out + n" "take (length out) res = out"
    "\<forall>i<n. res ! (length out + i) = res ! (length out + i - d)"
    using copy_back_ok [of d out n] by blast
  then show "\<exists>res. copy_back d n out = Inr res
           \<and> lz_decode (BackReference d n # ts) out = lz_decode ts res
           \<and> length res = length out + n
           \<and> take (length out) res = out
           \<and> (\<forall>i<n. res ! (length out + i) = res ! (length out + i - d))"
    by simp
qed

theorem loadLZ_overlap_witness:
  "copy_back 2 5 [1, 2, 3] = Inr [1, 2, 3, 2, 3, 2, 3, 2]
   \<and> lz_decode [BackReference 2 5, Literal 7] [1, 2, 3] = Inr [1, 2, 3, 2, 3, 2, 3, 2, 7]"
proof -
  have e: "copy_back 2 5 [1, 2, 3] = Inr [1, 2, 3, 2, 3, 2, 3, 2]"
    by code_simp
  have h: "0 < (2 :: nat) \<and> 2 \<le> length [1, 2, 3 :: 8 word]"
    by simp
  from loadLZ_overlap [of 2 "[1, 2, 3]" 5 "[Literal 7]"] h
  obtain res where r: "copy_back 2 5 [1, 2, 3] = Inr res"
    "lz_decode [BackReference 2 5, Literal 7] [1, 2, 3] = lz_decode [Literal 7] res"
    by blast
  from r(1) e have "res = [1, 2, 3, 2, 3, 2, 3, 2]"
    by simp
  with r(2) e show ?thesis
    by simp
qed

end
